theory Spec2Isabelle
  imports Main "HOL-Library.Word" "HOL-Library.Signed_Division" "HOL-Library.Multiset"
    "HOL-Library.Code_Target_Nat"
begin

unbundle bit_operations_syntax

section \<open>Shared types\<close>

text \<open>
  Go's \<open>[]byte\<close> is a list of 8-bit words, \<open>int64\<close> a 64-bit word read in two's
  complement. A Go function that can stop with a run-time panic returns an
  \<open>outcome\<close>: \<open>Panic\<close>, or \<open>Return\<close> with what the function returns.
\<close>

type_synonym byte = "8 word"
type_synonym bytes = "byte list"
type_synonym int64 = "64 word"

datatype 'a outcome = Panic | Return 'a

section \<open>vm/native: the IssueIOST system ABI\<close>

text \<open>
  The values of Go's \<open>interface{}\<close> that reach an ABI: its declared argument kinds
  are \<open>string\<close>, \<open>number\<close> (an \<open>int64\<close>) and \<open>json\<close> (a byte slice); \<open>VNil\<close>
  is the nil interface that \<open>Context().Value\<close> gives for a missing key. A type
  assertion \<open>x.(T)\<close> on a value of another kind panics.
\<close>

datatype val = VNil | VString string | VInt64 int64 | VBytes bytes | VBool bool

text \<open>The three counters of \<open>contract.Cost\<close> (declared in the generated contract code).\<close>

record Cost =
  Data :: int64
  Net :: int64
  CPU :: int64

text \<open>
  Modelled from the spec: \<open>contract.Cost0\<close> is not among the sources; it is the cost
  with every counter zero.
\<close>

definition Cost0 :: Cost where
  "Cost0 = \<lparr>Data = 0, Net = 0, CPU = 0\<rparr>"

text \<open>
  The part of \<open>host.Host\<close> that \<open>issueIOST\<close> touches: the values of the executing
  context and the balances of the state database. Modelled from the spec: the state
  database is outside the sources; \<open>SetBalance\<close> sets the balance of the account to
  the amount.
\<close>

record Host =
  Context :: "string \<Rightarrow> val"
  Balance :: "string \<rightharpoonup> int64"

definition SetBalance :: "Host \<Rightarrow> string \<Rightarrow> int64 \<Rightarrow> Host" where
  "SetBalance h name amount = h\<lparr>Balance := (Balance h)(name \<mapsto> amount)\<rparr>"

text \<open>
  \<open>issueIOST.do\<close>: the result is the host after the call, the returned values, the
  cost and the error (\<open>None\<close> is Go's nil error).
\<close>

definition issueIOST :: "Host \<Rightarrow> val list \<Rightarrow> (Host \<times> val list \<times> Cost \<times> string option) outcome" where
  "issueIOST h args =
     (case Context h ''number'' of
        VInt64 number \<Rightarrow>
          if number \<noteq> 0 then Return (h, [], Cost0, Some ''issue IOST in normal block'')
          else (case args of
                  VString name # VInt64 amount # _ \<Rightarrow>
                    Return (SetBalance h name amount, [], Cost0, None)
                | _ \<Rightarrow> Panic)
      | _ \<Rightarrow> Panic)"

section \<open>account: key pairs\<close>

text \<open>
  Modelled from the spec: \<open>crypto.Algorithm\<close> is declared outside the sources; the
  configuration input \<open>ACC.Algorithm\<close> names the two algorithms.
\<close>

datatype Algorithm = Secp256k1 | Ed25519

record KeyPair =
  Algorithm :: Algorithm
  Pubkey :: bytes
  Seckey :: bytes

text \<open>
  \<open>NewKeyPair\<close>. The secret key is a slice, \<open>None\<close> when it is nil. The methods
  \<open>GenSeckey\<close> and \<open>GetPubkey\<close> of the algorithm are outside the sources and are
  parameters; \<open>GenSeckey algo\<close> is the key that the call generates.
\<close>

definition NewKeyPair ::
  "(Algorithm \<Rightarrow> bytes) \<Rightarrow> (Algorithm \<Rightarrow> bytes \<Rightarrow> bytes) \<Rightarrow> bytes option \<Rightarrow> Algorithm
    \<Rightarrow> string + KeyPair" where
  "NewKeyPair GenSeckey GetPubkey seckey algo =
     (let seckey' = (case seckey of None \<Rightarrow> GenSeckey algo | Some k \<Rightarrow> k) in
      if (length seckey' \<noteq> 32 \<and> algo = Secp256k1) \<or> (length seckey' \<noteq> 64 \<and> algo = Ed25519)
      then Inl ''seckey length error''
      else Inr \<lparr>Algorithm = algo, Pubkey = GetPubkey algo seckey', Seckey = seckey'\<rparr>)"

text \<open>The length of a secret key of each algorithm, as \<open>NewKeyPair\<close> checks it.\<close>

definition seckeyLen :: "Algorithm \<Rightarrow> nat" where
  "seckeyLen algo = (case algo of Secp256k1 \<Rightarrow> 32 | Ed25519 \<Rightarrow> 64)"

section \<open>core/new_txpool: the transaction pool\<close>

subsection \<open>Data\<close>

text \<open>
  The packages of the transaction, the block and the block cache are outside the
  sources; the records below hold what \<open>tx_pool.go\<close> reads of them. \<open>Tx_Hash\<close> is
  the value of \<open>tx.Hash()\<close>, \<open>Head_Hash\<close> of \<open>block.Head.Hash()\<close> and \<open>Block_Hash\<close>
  of \<open>block.Hash()\<close>.
\<close>

record Tx =
  Tx_Time :: int64
  Tx_Expiration :: int64
  Tx_GasPrice :: int64
  Tx_Hash :: bytes

record BlockHead =
  Head_ParentHash :: bytes
  Head_Time :: int64
  Head_Hash :: bytes

record Block =
  Head :: BlockHead
  Txs :: "Tx list"
  Block_Hash :: bytes

record BlockCacheNode =
  Node_Block :: Block

text \<open>
  Modelled from the spec: the block cache of this pool is outside the sources;
  \<open>FindBlock\<close> finds a block by hash in the cache or the chain store (\<open>None\<close> is its
  error), \<open>LinkedTree\<close> is the root of the linked tree and \<open>BlockCache_Head\<close> the value
  of \<open>Head()\<close>, the best linked tip.
\<close>

record BlockCache =
  FindBlock :: "bytes \<rightharpoonup> Block"
  LinkedTree :: BlockCacheNode
  BlockCache_Head :: BlockCacheNode

datatype FRet = NotFound | FoundPending | FoundChain


record ForkChain =
  NewHead :: "BlockCacheNode option"
  OldHead :: "BlockCacheNode option"
  ForkBlockHash :: bytes

subsection \<open>The maps of the pool\<close>

text \<open>
  \<open>blockList\<close>, \<open>pendingTx\<close> and the \<open>txMap\<close> of a block are \<open>sync.Map\<close> values of the
  standard library, and every key that \<open>tx_pool.go\<close> passes to them is a \<open>[]byte\<close>:
  the value of \<open>tx.Hash()\<close> or \<open>block.Hash()\<close>, or a hash argument. A \<open>sync.Map\<close> keeps
  its entries in Go maps keyed by interface values, and a slice is not hashable: \<open>Load\<close>,
  \<open>Store\<close> and \<open>Delete\<close> hash the key and stop with the run-time panic
  \<open>hash of unhashable type []uint8\<close>, whatever the map holds. \<open>Range\<close> takes no key; it
  visits the entries in an order that Go leaves open. A map is the list of its entries,
  in the order in which one \<open>Range\<close> visits them.
\<close>

type_synonym 'v syncMap = "(bytes \<times> 'v) list"

definition Load :: "'v syncMap \<Rightarrow> bytes \<Rightarrow> 'v option outcome" where
  "Load m key = Panic"

definition Store :: "'v syncMap \<Rightarrow> bytes \<Rightarrow> 'v \<Rightarrow> 'v syncMap outcome" where
  "Store m key v = Panic"


text \<open>The values of \<open>txMap\<close> are nil.\<close>

record blockTx =
  txMap :: "unit syncMap"
  blockTx_ParentHash :: bytes
  cTime :: int64

record TxPoolImpl =
  chain :: BlockCache
  forkChain :: ForkChain
  blockList :: "blockTx syncMap"
  pendingTx :: "Tx syncMap"

text \<open>
  The functions of other packages that the pool calls: \<open>tx.Decode\<close> (\<open>None\<close> when it
  fails), \<open>tx.VerifySelf\<close> (the error it returns, \<open>None\<close> for nil) and
  \<open>Timestamp.ToUnixSec\<close> of a slot.
\<close>

record Deps =
  Decode :: "bytes \<Rightarrow> Tx option"
  VerifySelf :: "Tx \<Rightarrow> string option"
  ToUnixSec :: "int64 \<Rightarrow> int64"

definition expiration :: int64 where
  "expiration = 60"

definition filterTime :: int64 where
  "filterTime = expiration + word_of_int (sint expiration sdiv 2)"

subsection \<open>Sorting of transactions\<close>

text \<open>\<open>TxsList.Less\<close> on the two elements compared.\<close>

definition Less :: "Tx \<Rightarrow> Tx \<Rightarrow> bool" where
  "Less a b =
     (if Tx_GasPrice b <s Tx_GasPrice a then True
      else if Tx_GasPrice a = Tx_GasPrice b then (if Tx_Time b <s Tx_Time a then False else True)
      else False)"

text \<open>
  \<open>sort.Sort\<close> is a function of the standard library and the parameter \<open>sort_Sort\<close> of
  \<open>PendingTxs\<close>. \<open>insertionSort\<close> is the sort that \<open>sort.Sort\<close> runs on a list of fewer
  than 12 elements: every element in turn moves towards the front while it is \<open>Less\<close>
  than the element before it. \<open>insertDown\<close> works on the sorted front part in reverse.
\<close>

fun insertDown :: "('a \<Rightarrow> 'a \<Rightarrow> bool) \<Rightarrow> 'a \<Rightarrow> 'a list \<Rightarrow> 'a list" where
  "insertDown lt x [] = [x]"
| "insertDown lt x (y # front) = (if lt x y then y # insertDown lt x front else x # y # front)"

definition insertionSort :: "('a \<Rightarrow> 'a \<Rightarrow> bool) \<Rightarrow> 'a list \<Rightarrow> 'a list" where
  "insertionSort lt xs = rev (foldl (\<lambda>front x. insertDown lt x front) [] xs)"

text \<open>
  \<open>PendingTxs\<close>: the values that \<open>Range\<close> visits, sorted, cut to \<open>maxCnt\<close>; the second
  result is the error, always nil. Slicing with a negative bound panics.
\<close>

definition PendingTxs ::
  "(Tx list \<Rightarrow> Tx list) \<Rightarrow> TxPoolImpl \<Rightarrow> int \<Rightarrow> (Tx list \<times> string option) outcome" where
  "PendingTxs sort_Sort pool maxCnt =
     (let pendingList = sort_Sort (map snd (pendingTx pool));
          len = int (length pendingList);
          len' = (if len \<ge> maxCnt then maxCnt else len)
      in if len' < 0 then Panic else Return (take (nat len') pendingList, None))"

text \<open>
  Modelled from the spec: \<open>PendingTx\<close>, which the producer calls without a bound
  (\<open>pob.go\<close>, \<open>scheduleLoop\<close>), is outside the sources. It returns the sorted snapshot
  together with the head of the block cache, both read in the same state of the pool.
\<close>

definition PendingTx ::
  "(Tx list \<Rightarrow> Tx list) \<Rightarrow> TxPoolImpl \<Rightarrow> (Tx list \<times> BlockCacheNode) outcome" where
  "PendingTx sort_Sort pool =
     (case PendingTxs sort_Sort pool (int (length (pendingTx pool))) of
        Panic \<Rightarrow> Panic
      | Return (txs, err) \<Rightarrow> Return (txs, BlockCache_Head (chain pool)))"

subsection \<open>Looking a transaction up\<close>

definition slotToSec :: "Deps \<Rightarrow> int64 \<Rightarrow> int64" where
  "slotToSec env t = ToUnixSec env t"

definition block :: "TxPoolImpl \<Rightarrow> bytes \<Rightarrow> blockTx option outcome" where
  "block pool hash =
     (case Load (blockList pool) hash of
        Panic \<Rightarrow> Panic
      | Return (Some v) \<Rightarrow> Return (Some v)
      | Return None \<Rightarrow> Return None)"

definition parentHash :: "TxPoolImpl \<Rightarrow> bytes \<Rightarrow> bytes option outcome" where
  "parentHash pool hash =
     (case block pool hash of
        Panic \<Rightarrow> Panic
      | Return None \<Rightarrow> Return None
      | Return (Some v) \<Rightarrow> Return (Some (blockTx_ParentHash v)))"

definition existTx :: "blockTx \<Rightarrow> bytes \<Rightarrow> bool outcome" where
  "existTx b hash =
     (case Load (txMap b) hash of Panic \<Rightarrow> Panic | Return r \<Rightarrow> Return (r \<noteq> None))"

definition existTxInBlock :: "TxPoolImpl \<Rightarrow> bytes \<Rightarrow> bytes \<Rightarrow> bool outcome" where
  "existTxInBlock pool txHash blockHash =
     (case Load (blockList pool) blockHash of
        Panic \<Rightarrow> Panic
      | Return None \<Rightarrow> Return False
      | Return (Some b) \<Rightarrow> existTx b txHash)"

definition existTxInPending :: "TxPoolImpl \<Rightarrow> bytes \<Rightarrow> bool outcome" where
  "existTxInPending pool hash =
     (case Load (pendingTx pool) hash of Panic \<Rightarrow> Panic | Return r \<Rightarrow> Return (r \<noteq> None))"

text \<open>
  The loop of \<open>existTxInChain\<close>, from the block hash \<open>h\<close>. It has no bound of its own:
  where it does not end the value is \<open>None\<close>.
\<close>

partial_function (option) existTxInChain_loop ::
  "TxPoolImpl \<Rightarrow> bytes \<Rightarrow> int64 \<Rightarrow> bytes \<Rightarrow> bool outcome option" where
  "existTxInChain_loop pool txHash t h =
     (case existTxInBlock pool txHash h of
        Panic \<Rightarrow> Some Panic
      | Return ret \<Rightarrow>
          if ret then Some (Return True)
          else
            (case parentHash pool h of
               Panic \<Rightarrow> Some Panic
             | Return None \<Rightarrow> Some (Return False)
             | Return (Some h') \<Rightarrow>
                 (case block pool h' of
                    Panic \<Rightarrow> Some Panic
                  | Return (Some b) \<Rightarrow>
                      if filterTime <s t - cTime b then Some (Return False)
                      else existTxInChain_loop pool txHash t h'
                  | Return None \<Rightarrow> existTxInChain_loop pool txHash t h')))"

definition existTxInChain :: "Deps \<Rightarrow> TxPoolImpl \<Rightarrow> bytes \<Rightarrow> Block \<Rightarrow> bool outcome option" where
  "existTxInChain env pool txHash blk =
     existTxInChain_loop pool txHash (slotToSec env (Head_Time (Head blk))) (Head_Hash (Head blk))"

definition ExistTxs ::
  "Deps \<Rightarrow> TxPoolImpl \<Rightarrow> bytes \<Rightarrow> Block \<Rightarrow> (FRet \<times> string option) outcome option" where
  "ExistTxs env pool hash chainBlock =
     (case existTxInPending pool hash of
        Panic \<Rightarrow> Some Panic
      | Return True \<Rightarrow> Some (Return (FoundPending, None))
      | Return False \<Rightarrow>
          (case existTxInChain env pool hash chainBlock of
             None \<Rightarrow> None
           | Some Panic \<Rightarrow> Some Panic
           | Some (Return True) \<Rightarrow> Some (Return (FoundChain, None))
           | Some (Return False) \<Rightarrow> Some (Return (NotFound, None))))"

subsection \<open>Receiving a transaction\<close>

definition int64_div :: "int64 \<Rightarrow> int64 \<Rightarrow> int64" where
  "int64_div a b = word_of_int (sint a sdiv sint b)"

definition txTimeOut :: "int64 \<Rightarrow> Tx \<Rightarrow> bool" where
  "txTimeOut nTime tx =
     (let txTime = int64_div (Tx_Time tx) 1000000000;
          exTime = int64_div (Tx_Expiration tx) 1000000000
      in if exTime \<le>s nTime then True
         else if expiration <s nTime - txTime then True
         else False)"

text \<open>
  \<open>addTx\<close> reads the block of \<open>forkChain.NewHead\<close>, a nil pointer until a head is
  recorded; the second test is not evaluated when the first one fails.
\<close>

definition addTx :: "Deps \<Rightarrow> TxPoolImpl \<Rightarrow> Tx \<Rightarrow> TxPoolImpl outcome option" where
  "addTx env pool tx =
     (let h = Tx_Hash tx in
      case NewHead (forkChain pool) of
        None \<Rightarrow> Some Panic
      | Some newHead \<Rightarrow>
          (case existTxInChain env pool h (Node_Block newHead) of
             None \<Rightarrow> None
           | Some Panic \<Rightarrow> Some Panic
           | Some (Return True) \<Rightarrow> Some (Return pool)
           | Some (Return False) \<Rightarrow>
               (case existTxInPending pool h of
                  Panic \<Rightarrow> Some Panic
                | Return True \<Rightarrow> Some (Return pool)
                | Return False \<Rightarrow>
                    (case Store (pendingTx pool) h tx of
                       Panic \<Rightarrow> Some Panic
                     | Return m \<Rightarrow> Some (Return (pool\<lparr>pendingTx := m\<rparr>))))))"

text \<open>
  One round of \<open>loop\<close> that receives the message body \<open>body\<close> from \<open>chTx\<close> at the
  time \<open>nTime\<close> (\<open>time.Now().Unix()\<close>).
\<close>

definition loop_chTx :: "Deps \<Rightarrow> TxPoolImpl \<Rightarrow> int64 \<Rightarrow> bytes \<Rightarrow> TxPoolImpl outcome option" where
  "loop_chTx env pool nTime body =
     (case Decode env body of
        None \<Rightarrow> Some (Return pool)
      | Some tx \<Rightarrow>
          if txTimeOut nTime tx then Some (Return pool)
          else if VerifySelf env tx \<noteq> None then addTx env pool tx
          else Some (Return pool))"

subsection \<open>Linked blocks and forks\<close>


















subsection \<open>Executing the loops\<close>

declare existTxInChain_loop.simps [code]

subsection \<open>The order of a snapshot\<close>

text \<open>
  The order of a snapshot: a higher gas price first, and for equal gas prices the
  earlier time first.
\<close>

definition byPriceThenTime :: "Tx \<Rightarrow> Tx \<Rightarrow> bool" where
  "byPriceThenTime a b =
     (Tx_GasPrice b <s Tx_GasPrice a \<or> (Tx_GasPrice a = Tx_GasPrice b \<and> Tx_Time a \<le>s Tx_Time b))"

text \<open>
  What \<open>sort.Sort\<close> gives for a list ordered by \<open>lt\<close>: a rearrangement of the list in
  which every element is \<open>lt\<close> each later one.
\<close>

definition sortsBy :: "('a \<Rightarrow> 'a \<Rightarrow> bool) \<Rightarrow> ('a list \<Rightarrow> 'a list) \<Rightarrow> bool" where
  "sortsBy lt sort_Sort = (\<forall>xs. mset (sort_Sort xs) = mset xs \<and> sorted_wrt lt (sort_Sort xs))"

subsection \<open>Example pools\<close>

definition ex_node :: BlockCacheNode where
  "ex_node = \<lparr>Node_Block = \<lparr>Head = \<lparr>Head_ParentHash = [], Head_Time = 0, Head_Hash = [9]\<rparr>,
                              Txs = [], Block_Hash = [9]\<rparr>\<rparr>"

definition ex_fork_node :: BlockCacheNode where
  "ex_fork_node = \<lparr>Node_Block = \<lparr>Head = \<lparr>Head_ParentHash = [7], Head_Time = 0, Head_Hash = [8]\<rparr>,
                                   Txs = [], Block_Hash = [8]\<rparr>\<rparr>"

definition ex_tx :: Tx where
  "ex_tx = \<lparr>Tx_Time = 100000000000, Tx_Expiration = 200000000000, Tx_GasPrice = 1, Tx_Hash = [1]\<rparr>"

definition ex_tx2 :: Tx where
  "ex_tx2 = \<lparr>Tx_Time = 100000000000, Tx_Expiration = 200000000000, Tx_GasPrice = 5, Tx_Hash = [2]\<rparr>"

definition ex_tx3 :: Tx where
  "ex_tx3 = \<lparr>Tx_Time = 100000000000, Tx_Expiration = 200000000000, Tx_GasPrice = 1, Tx_Hash = [3]\<rparr>"

definition ex_env :: "string option \<Rightarrow> Deps" where
  "ex_env v = \<lparr>Decode = (\<lambda>b. Some ex_tx), VerifySelf = (\<lambda>t. v), ToUnixSec = (\<lambda>t. t)\<rparr>"

text \<open>The pool as \<open>NewTxPoolImpl\<close> makes it: no head recorded, both maps empty.\<close>

definition ex_new_pool :: TxPoolImpl where
  "ex_new_pool = \<lparr>chain = \<lparr>FindBlock = Map.empty, LinkedTree = ex_node, BlockCache_Head = ex_node\<rparr>,
              forkChain = \<lparr>NewHead = None, OldHead = None, ForkBlockHash = []\<rparr>,
              blockList = [], pendingTx = []\<rparr>"

text \<open>A pool value with the head \<open>ex_node\<close> recorded, no block listed and nothing pending.\<close>

definition ex_pool :: TxPoolImpl where
  "ex_pool = \<lparr>chain = \<lparr>FindBlock = Map.empty, LinkedTree = ex_node, BlockCache_Head = ex_node\<rparr>,
              forkChain = \<lparr>NewHead = Some ex_node, OldHead = None, ForkBlockHash = []\<rparr>,
              blockList = [], pendingTx = []\<rparr>"

text \<open>
  A pool value with three transactions pending, in the order in which \<open>Range\<close> visits
  them; \<open>ex_tx\<close> and \<open>ex_tx3\<close> have the same gas price and time.
\<close>

definition ex_three_pool :: TxPoolImpl where
  "ex_three_pool = \<lparr>chain = \<lparr>FindBlock = Map.empty, LinkedTree = ex_node, BlockCache_Head = ex_node\<rparr>,
              forkChain = \<lparr>NewHead = Some ex_node, OldHead = None, ForkBlockHash = []\<rparr>,
              blockList = [], pendingTx = [([1], ex_tx), ([2], ex_tx2), ([3], ex_tx3)]\<rparr>"

section \<open>consensus/pob: receiving and linking blocks\<close>

subsection \<open>Data\<close>

text \<open>
  What \<open>pob.go\<close> reads of a block: the head fields, the value \<open>HeadHash\<close> of
  \<open>blk.HeadHash()\<close> and the signature.
\<close>

record BlkHead =
  Blk_Number :: int64
  Blk_ParentHash :: bytes
  Blk_Witness :: string
  Blk_Time :: int64

record Blk =
  Blk_Head :: BlkHead
  HeadHash :: bytes
  Sign :: bytes

datatype BCNType = Linked | Single

text \<open>
  Modelled from the spec: the block cache is outside the sources. A node wraps a block
  with its type and serial number; the nodes are held in an arena keyed by head hash
  (an association list, in the order of insertion), and parent and child links are
  hash references resolved through the arena. \<open>Find\<close> looks a node up; \<open>Add\<close> inserts
  a block as Single; \<open>Del\<close> removes a node with its subtree; \<open>UpdateLib\<close> advances
  the last irreversible block and so drops nodes from the arena: which ones is the
  parameter \<open>libDropped\<close>.

  \<open>Link\<close> is a parameter of the engine (a field of \<open>Collab\<close> below): the spec
  gives the serial number and the walk over the children both to \<open>Link\<close> and to
  \<open>addExistingBlock\<close>, which leaves two readings of it. \<open>markLinked\<close> marks the node Linked and leaves the serial
  number, which \<open>addExistingBlock\<close> has written, and the children, which
  \<open>addExistingBlock\<close> ranges over, as they are. \<open>linkSubtree\<close> follows the words of
  the interface of the block cache, "mark Linked, set serialNum, ..., then recursively
  try to Link children": it marks the node and then links every child of it in the same
  way, to a depth bounded by the first argument.
\<close>

record CacheNode =
  CN_Block :: Blk
  CN_Type :: BCNType
  SerialNum :: int64

type_synonym cache = "(bytes \<times> CacheNode) list"

definition Find :: "cache \<Rightarrow> bytes \<Rightarrow> CacheNode option" where
  "Find c hash = map_of c hash"

definition Add :: "cache \<Rightarrow> Blk \<Rightarrow> cache" where
  "Add c blk =
     (case map_of c (HeadHash blk) of
        Some _ \<Rightarrow> c
      | None \<Rightarrow> c @ [(HeadHash blk, \<lparr>CN_Block = blk, CN_Type = Single, SerialNum = 0\<rparr>)])"

definition updNode :: "bytes \<Rightarrow> (CacheNode \<Rightarrow> CacheNode) \<Rightarrow> cache \<Rightarrow> cache" where
  "updNode hash f c = map (\<lambda>(k, n). if k = hash then (k, f n) else (k, n)) c"

definition markLinked :: "cache \<Rightarrow> bytes \<Rightarrow> cache" where
  "markLinked c hash = updNode hash (\<lambda>n. n\<lparr>CN_Type := Linked\<rparr>) c"

definition Children :: "cache \<Rightarrow> bytes \<Rightarrow> CacheNode list" where
  "Children c hash = filter (\<lambda>n. Blk_ParentHash (Blk_Head (CN_Block n)) = hash) (map snd c)"


fun subtree :: "nat \<Rightarrow> cache \<Rightarrow> bytes list \<Rightarrow> bytes list" where
  "subtree 0 c hs = hs"
| "subtree (Suc k) c hs =
     subtree k c (hs @ map (\<lambda>n. HeadHash (CN_Block n)) (concat (map (Children c) hs)))"

definition Del :: "cache \<Rightarrow> bytes \<Rightarrow> cache" where
  "Del c hash = filter (\<lambda>(k, n). k \<notin> set (subtree (length c) c [hash])) c"

definition UpdateLib :: "(cache \<Rightarrow> bytes \<Rightarrow> bytes list) \<Rightarrow> cache \<Rightarrow> bytes \<Rightarrow> cache" where
  "UpdateLib libDropped c hash = filter (\<lambda>(k, n). k \<notin> set (libDropped c hash)) c"

text \<open>
  The three errors of \<open>pob.go\<close>, and any other error (of \<open>verifyBasics\<close> or
  \<open>verifyBlock\<close>).
\<close>

datatype error = errSingle | errDuplicate | errOutOfLimit | OtherError string

text \<open>Modelled from the spec: the tags of peer messages (the p2p package is outside the sources).\<close>

datatype MessageType =
  SyncHeight | NewBlock | NewBlockHash | SyncBlockHashRequest | SyncBlockHashResponse
  | SyncBlockRequest | SyncBlockResponse | NewBlockRequest

datatype MessagePriority = UrgentMessage | NormalMessage

record BlockInfo =
  Info_Number :: int64
  Info_Hash :: bytes

record BlockMessage =
  Blk :: Blk
  P2PType :: MessageType

text \<open>
  The engine: the block cache, the tags committed in \<open>verifyDB\<close>, the nodes handed to
  \<open>txPool.AddLinkedNode\<close> and the messages handed to \<open>p2pService.Broadcast\<close>, both in
  the order of the calls. Metrics, logging and the connections to block producers do
  not enter the state.
\<close>

record PoB =
  blockCache :: cache
  verifyDB :: "bytes list"
  txPool :: "CacheNode list"
  p2pService :: "(bytes \<times> MessageType \<times> MessagePriority) list"

text \<open>
  The functions outside the sources that the engine calls: \<open>verifyBasics\<close> and
  \<open>verifyBlock\<close> (the error they return, \<open>None\<close> for nil; \<open>verifyBlock\<close> reads the
  state), \<open>slotOfSec\<close>, the nodes that \<open>UpdateLib\<close> drops, \<open>proto.Marshal\<close> of a
  block info (\<open>None\<close> when it fails), \<open>Link\<close> of the block cache (the cache after
  \<open>Link(node, replay)\<close> for the node of the given hash), the order in which the range
  over the map \<open>node.Children\<close> visits the children, which Go leaves open
  (\<open>rangeChildren\<close> is given the children in the order of the arena), and the value of
  \<open>p.account.ReadablePubkey()\<close>.
\<close>

record Collab =
  verifyBasics :: "Blk \<Rightarrow> error option"
  verifyBlock :: "PoB \<Rightarrow> Blk \<Rightarrow> Blk \<Rightarrow> bool \<Rightarrow> error option"
  slotOfSec :: "int64 \<Rightarrow> int64"
  libDropped :: "cache \<Rightarrow> bytes \<Rightarrow> bytes list"
  Marshal :: "BlockInfo \<Rightarrow> bytes option"
  Link :: "cache \<Rightarrow> bytes \<Rightarrow> bool \<Rightarrow> cache"
  rangeChildren :: "CacheNode list \<Rightarrow> CacheNode list"
  ReadablePubkey :: string

definition blockNumPerWitness :: int64 where
  "blockNumPerWitness = 6"

subsection \<open>Linking\<close>

text \<open>
  \<open>addExistingBlock\<close> calls itself for every child of the node, so the depth of the
  calls is bounded by the first argument after the collaborators; \<open>None\<close> is the
  result when the bound is reached. A node that \<open>Find\<close> does not find is a nil
  pointer, and writing its serial number panics. For a block of another account the
  call logs the first ten bytes of the witness, \<open>node.Head.Witness[:10]\<close>, which
  panics on a shorter witness. The result of the call for a child is dropped, as in the
  source.
\<close>

fun addExistingBlock ::
    "Collab \<Rightarrow> nat \<Rightarrow> PoB \<Rightarrow> Blk \<Rightarrow> CacheNode \<Rightarrow> bool \<Rightarrow> (PoB \<times> error option) outcome option"
  and addChildren ::
    "Collab \<Rightarrow> nat \<Rightarrow> PoB \<Rightarrow> CacheNode list \<Rightarrow> CacheNode \<Rightarrow> bool \<Rightarrow> PoB outcome option"
where
  "addExistingBlock env 0 p blk parentNode replay = None"
| "addExistingBlock env (Suc k) p blk parentNode replay =
     (case Find (blockCache p) (HeadHash blk) of
        None \<Rightarrow> Some Panic
      | Some node \<Rightarrow>
          (let serial =
                 (if Blk_Witness (Blk_Head (CN_Block parentNode)) \<noteq> Blk_Witness (Blk_Head blk)
                     \<or> slotOfSec env (int64_div (Blk_Time (Blk_Head (CN_Block parentNode))) 1000000000)
                        \<noteq> slotOfSec env (int64_div (Blk_Time (Blk_Head blk)) 1000000000)
                  then 0 else SerialNum parentNode + 1);
               p1 = p\<lparr>blockCache := updNode (HeadHash blk) (\<lambda>n. n\<lparr>SerialNum := serial\<rparr>) (blockCache p)\<rparr>
           in if blockNumPerWitness \<le>s serial then Some (Return (p1, Some errOutOfLimit))
              else
                (case (if HeadHash blk \<in> set (verifyDB p1) then None
                       else verifyBlock env p1 blk (CN_Block parentNode) replay) of
                   Some err \<Rightarrow>
                     Some (Return (p1\<lparr>blockCache := Del (blockCache p1) (HeadHash blk)\<rparr>, Some err))
                 | None \<Rightarrow>
                     (let p2 = (if HeadHash blk \<in> set (verifyDB p1) then p1
                                else p1\<lparr>verifyDB := HeadHash blk # verifyDB p1\<rparr>);
                          p3 = p2\<lparr>blockCache := Link env (blockCache p2) (HeadHash blk) replay\<rparr>;
                          p4 = p3\<lparr>blockCache := UpdateLib (libDropped env) (blockCache p3) (HeadHash blk)\<rparr>;
                          node' = node\<lparr>SerialNum := serial, CN_Type := Linked\<rparr>;
                          p5 = p4\<lparr>txPool := txPool p4 @ [node']\<rparr>
                      in if Blk_Witness (Blk_Head (CN_Block node)) \<noteq> ReadablePubkey env
                            \<and> length (Blk_Witness (Blk_Head (CN_Block node))) < 10
                         then Some Panic
                         else
                           (case addChildren env k p5
                                   (rangeChildren env (Children (blockCache p5) (HeadHash blk)))
                                   node' replay of
                              None \<Rightarrow> None
                            | Some Panic \<Rightarrow> Some Panic
                            | Some (Return p6) \<Rightarrow> Some (Return (p6, None)))))))"
| "addChildren env k p [] node replay = Some (Return p)"
| "addChildren env k p (child # children) node replay =
     (case addExistingBlock env k p (CN_Block child) node replay of
        None \<Rightarrow> None
      | Some Panic \<Rightarrow> Some Panic
      | Some (Return (p', _)) \<Rightarrow> addChildren env k p' children node replay)"

definition handleRecvBlock ::
  "Collab \<Rightarrow> nat \<Rightarrow> PoB \<Rightarrow> Blk \<Rightarrow> (PoB \<times> error option) outcome option" where
  "handleRecvBlock env k p blk =
     (case Find (blockCache p) (HeadHash blk) of
        Some _ \<Rightarrow> Some (Return (p, Some errDuplicate))
      | None \<Rightarrow>
          (case verifyBasics env blk of
             Some err \<Rightarrow> Some (Return (p, Some err))
           | None \<Rightarrow>
               (let parent = Find (blockCache p) (Blk_ParentHash (Blk_Head blk));
                    p' = p\<lparr>blockCache := Add (blockCache p) blk\<rparr>
                in case parent of
                     Some parentNode \<Rightarrow>
                       if CN_Type parentNode = Linked then addExistingBlock env k p' blk parentNode False
                       else Some (Return (p', Some errSingle))
                   | None \<Rightarrow> Some (Return (p', Some errSingle)))))"

subsection \<open>Verifying an incoming block\<close>

definition broadcastBlockHash :: "Collab \<Rightarrow> PoB \<Rightarrow> Blk \<Rightarrow> PoB" where
  "broadcastBlockHash env p blk =
     (case Marshal env \<lparr>Info_Number = Blk_Number (Blk_Head blk), Info_Hash = HeadHash blk\<rparr> of
        None \<Rightarrow> p
      | Some b \<Rightarrow> p\<lparr>p2pService := p2pService p @ [(b, NewBlockHash, UrgentMessage)]\<rparr>)"

definition doVerifyBlock :: "Collab \<Rightarrow> nat \<Rightarrow> PoB \<Rightarrow> BlockMessage \<Rightarrow> PoB outcome option" where
  "doVerifyBlock env k p blkMsg =
     (case P2PType blkMsg of
        NewBlock \<Rightarrow>
          (case handleRecvBlock env k p (Blk blkMsg) of
             None \<Rightarrow> None
           | Some Panic \<Rightarrow> Some Panic
           | Some (Return (p', err)) \<Rightarrow>
               Some (Return (if err = Some errSingle \<or> err = None
                             then broadcastBlockHash env p' (Blk blkMsg) else p')))
      | SyncBlockResponse \<Rightarrow>
          (case handleRecvBlock env k p (Blk blkMsg) of
             None \<Rightarrow> None
           | Some Panic \<Rightarrow> Some Panic
           | Some (Return (p', err)) \<Rightarrow> Some (Return p'))
      | _ \<Rightarrow> Some (Return p))"

subsection \<open>The invariant of the block cache\<close>

text \<open>
  The serial number that \<open>addExistingBlock\<close> writes to the node of \<open>blk\<close> under \<open>parentNode\<close>.
\<close>

definition nextSerial :: "Collab \<Rightarrow> Blk \<Rightarrow> CacheNode \<Rightarrow> int64" where
  "nextSerial env blk parentNode =
     (if Blk_Witness (Blk_Head (CN_Block parentNode)) \<noteq> Blk_Witness (Blk_Head blk)
         \<or> slotOfSec env (int64_div (Blk_Time (Blk_Head (CN_Block parentNode))) 1000000000)
            \<noteq> slotOfSec env (int64_div (Blk_Time (Blk_Head blk)) 1000000000)
      then 0 else SerialNum parentNode + 1)"

text \<open>
  The states that \<open>addExistingBlock\<close> passes through: after the serial number is written,
  the result of the verification (\<open>None\<close> when the state is committed already or
  \<open>verifyBlock\<close> succeeds), and after \<open>Link\<close>, \<open>UpdateLib\<close> and \<open>AddLinkedNode\<close>.
\<close>

definition withSerial :: "PoB \<Rightarrow> Blk \<Rightarrow> int64 \<Rightarrow> PoB" where
  "withSerial p blk serial =
     p\<lparr>blockCache := updNode (HeadHash blk) (\<lambda>n. n\<lparr>SerialNum := serial\<rparr>) (blockCache p)\<rparr>"

definition verified :: "Collab \<Rightarrow> PoB \<Rightarrow> Blk \<Rightarrow> CacheNode \<Rightarrow> bool \<Rightarrow> error option" where
  "verified env p1 blk parentNode replay =
     (if HeadHash blk \<in> set (verifyDB p1) then None
      else verifyBlock env p1 blk (CN_Block parentNode) replay)"

definition linkedState :: "Collab \<Rightarrow> PoB \<Rightarrow> Blk \<Rightarrow> CacheNode \<Rightarrow> bool \<Rightarrow> PoB" where
  "linkedState env p1 blk node' replay =
     (let p2 = (if HeadHash blk \<in> set (verifyDB p1) then p1
                else p1\<lparr>verifyDB := HeadHash blk # verifyDB p1\<rparr>);
          p3 = p2\<lparr>blockCache := Link env (blockCache p2) (HeadHash blk) replay\<rparr>;
          p4 = p3\<lparr>blockCache := UpdateLib (libDropped env) (blockCache p3) (HeadHash blk)\<rparr>
      in p4\<lparr>txPool := txPool p4 @ [node']\<rparr>)"















text \<open>
  Example collaborators, blocks and engine states: the block \<open>ex_blkB\<close> follows
  \<open>ex_blkA\<close> by the same witness in the same slot; \<open>ex_blkC\<close> has no parent in the cache.
\<close>

definition ex_collab :: Collab where
  "ex_collab = \<lparr>verifyBasics = (\<lambda>b. None), verifyBlock = (\<lambda>p b pb r. None),
                 slotOfSec = (\<lambda>s. word_of_int (sint s sdiv 3)), libDropped = (\<lambda>c h. []),
                 Marshal = (\<lambda>i. Some (Info_Hash i)), Link = (\<lambda>c h r. markLinked c h),
                 rangeChildren = (\<lambda>children. children), ReadablePubkey = ''producer_0''\<rparr>"

definition ex_blkA :: Blk where
  "ex_blkA = \<lparr>Blk_Head = \<lparr>Blk_Number = 1, Blk_ParentHash = [0], Blk_Witness = ''producer_1'', Blk_Time = 0\<rparr>,
              HeadHash = [1], Sign = []\<rparr>"

definition ex_blkB :: Blk where
  "ex_blkB = \<lparr>Blk_Head = \<lparr>Blk_Number = 2, Blk_ParentHash = [1], Blk_Witness = ''producer_1'',
                            Blk_Time = 500000000\<rparr>,
              HeadHash = [2], Sign = []\<rparr>"

definition ex_blkC :: Blk where
  "ex_blkC = \<lparr>Blk_Head = \<lparr>Blk_Number = 9, Blk_ParentHash = [8], Blk_Witness = ''producer_2'',
                            Blk_Time = 500000000\<rparr>,
              HeadHash = [9], Sign = []\<rparr>"

definition ex_pob :: "int64 \<Rightarrow> PoB" where
  "ex_pob serialA =
     \<lparr>blockCache = [([1], \<lparr>CN_Block = ex_blkA, CN_Type = Linked, SerialNum = serialA\<rparr>),
                     ([2], \<lparr>CN_Block = ex_blkB, CN_Type = Single, SerialNum = 0\<rparr>)],
      verifyDB = [], txPool = [], p2pService = []\<rparr>"


definition ex_nodeB :: CacheNode where
  "ex_nodeB = \<lparr>CN_Block = ex_blkB, CN_Type = Single, SerialNum = 0\<rparr>"







text \<open>
  Linking broadcasts nothing.
\<close>

definition keepsBroadcasts :: "Collab \<Rightarrow> nat \<Rightarrow> bool" where
  "keepsBroadcasts env k \<longleftrightarrow>
     (\<forall>p blk pn replay p' e.
        addExistingBlock env k p blk pn replay = Some (Return (p', e))
        \<longrightarrow> p2pService p' = p2pService p)"

section \<open>core/tx: the generated codec of transactions\<close>

subsection \<open>Results and cursors\<close>

text \<open>
  \<open>tx.pb.go\<close> is generated code: the size, the encoder and the decoder of every
  message. The errors of the decoder are the three error values of the file and the
  errors it formats: a group end outside a group, an illegal tag, a wrong wire type for
  a field, an illegal wire type. A call returns \<open>Ok\<close> with its result, returns an
  error, or stops with a run-time panic. Go's \<open>int\<close> has 64 bits; \<open>wrap64\<close> is the
  value of an \<open>int\<close> sum.

  The decoder reads the slice \<open>dAtA\<close> at the index \<open>iNdEx\<close>. The functions below take
  the index together with the bytes from the index on; the bytes before it are not read
  again.
\<close>

datatype proto_error =
  ErrInvalidLengthTx | ErrIntOverflowTx | ErrUnexpectedEOF
  | ErrEndGroup | ErrIllegalTag | ErrWrongWireType | ErrIllegalWireType

datatype 'a result = Ok 'a | Err proto_error | Panicked

definition wrap64 :: "int \<Rightarrow> int" where
  "wrap64 x = sint (word_of_int x :: 64 word)"

subsection \<open>Varints\<close>

text \<open>
  \<open>encodeVarintTx\<close> writes \<open>v\<close> in groups of seven bits, the low group first, with the
  high bit set on every byte but the last (the bytes written are the result);
  \<open>sovTx\<close> is the number of bytes of that encoding. \<open>readVarint\<close> is the loop that every
  reader of \<open>tx.pb.go\<close> repeats: from the shift \<open>shift\<close> and the value \<open>v\<close> read so far
  it gives the value, the index after it and the bytes from there on.
\<close>

function encodeVarintTx :: "64 word \<Rightarrow> bytes" where
  "encodeVarintTx v =
     (if 128 \<le> v then ucast ((v AND 0x7f) OR 0x80) # encodeVarintTx (drop_bit 7 v)
      else [ucast v])"
  by pat_completeness auto

lemma drop_bit_7_less: "128 \<le> (v :: 64 word) \<Longrightarrow> unat (drop_bit 7 v) < unat v"
proof -
  assume a: "128 \<le> v"
  then have "128 \<le> unat v" by (simp add: word_le_nat_alt)
  then have "unat v div 128 < unat v" by simp
  then show ?thesis by (simp add: drop_bit_eq_div unat_div)
qed

termination encodeVarintTx
  by (relation "measure unat") (simp_all add: drop_bit_7_less)

function sovTx :: "64 word \<Rightarrow> nat" where
  "sovTx x = (if drop_bit 7 x = 0 then 1 else Suc (sovTx (drop_bit 7 x)))"
  by pat_completeness auto

lemma drop_bit_7_less': "drop_bit 7 (x :: 64 word) \<noteq> 0 \<Longrightarrow> unat (drop_bit 7 x) < unat x"
proof -
  assume "drop_bit 7 x \<noteq> 0"
  then have "unat (drop_bit 7 x) \<noteq> 0" by (simp add: unat_eq_0)
  then have n: "unat x div 128 \<noteq> 0" by (simp add: drop_bit_eq_div unat_div)
  then have "unat x \<noteq> 0" by auto
  then have "unat x div 128 < unat x" by simp
  then show ?thesis by (simp add: drop_bit_eq_div unat_div)
qed

termination sovTx
  by (relation "measure unat") (simp_all add: drop_bit_7_less')

fun readVarint :: "nat \<Rightarrow> 64 word \<Rightarrow> nat \<Rightarrow> bytes \<Rightarrow> (64 word \<times> nat \<times> bytes) result" where
  "readVarint shift v iNdEx [] =
     (if 64 \<le> shift then Err ErrIntOverflowTx else Err ErrUnexpectedEOF)"
| "readVarint shift v iNdEx (b # rest) =
     (if 64 \<le> shift then Err ErrIntOverflowTx
      else if b < 0x80 then Ok (v OR push_bit shift (ucast b AND 0x7F), Suc iNdEx, rest)
      else readVarint (shift + 7) (v OR push_bit shift (ucast b AND 0x7F)) (Suc iNdEx) rest)"

declare encodeVarintTx.simps [simp del]
declare sovTx.simps [simp del]

subsection \<open>Skipping a field\<close>

text \<open>
  \<open>skipTx\<close> gives the length of the field at the start of \<open>dAtA\<close>. \<open>skipVarint\<close> is its
  loop for wire type 0, \<open>skipGroup\<close> its loop for wire type 3, which skips the fields
  of a group from the index \<open>start\<close> (with the bytes from \<open>start\<close> on) until the end
  of the group. On an empty slice \<open>skipTx\<close> reaches \<open>panic("unreachable")\<close>. In
  \<open>skipGroup\<close> the next index is \<open>start + next\<close>: if that sum is negative the read at
  the index panics, and for a slice of fewer than \<open>2 ^ 62\<close> bytes it is negative
  whenever it is not beyond \<open>start\<close>, as \<open>next\<close> is then beyond \<open>start\<close> or the sum
  has wrapped (\<open>skipGroup_guard\<close>). The lemmas between the definitions are the ones their termination needs.
\<close>

fun skipVarint :: "nat \<Rightarrow> nat \<Rightarrow> bytes \<Rightarrow> nat result" where
  "skipVarint shift iNdEx [] =
     (if 64 \<le> shift then Err ErrIntOverflowTx else Err ErrUnexpectedEOF)"
| "skipVarint shift iNdEx (b # rest) =
     (if 64 \<le> shift then Err ErrIntOverflowTx
      else if b < 0x80 then Ok (Suc iNdEx)
      else skipVarint (shift + 7) (Suc iNdEx) rest)"

lemma readVarint_shorter:
  "readVarint shift v i rest = Ok (w, i', rest') \<Longrightarrow> length rest' < length rest"
  by (induction shift v i rest rule: readVarint.induct) (auto split: if_splits)

function skipTx :: "bytes \<Rightarrow> int result"
  and skipGroup :: "nat \<Rightarrow> bytes \<Rightarrow> int result" where
  "skipTx dAtA =
     (if dAtA = [] then Panicked
      else
        (case readVarint 0 0 0 dAtA of
           Err e \<Rightarrow> Err e
         | Panicked \<Rightarrow> Panicked
         | Ok (wire, iNdEx, rest) \<Rightarrow>
             (let wireType = unat (wire AND 0x7) in
              if wireType = 0 then
                (case skipVarint 0 iNdEx rest of
                   Err e \<Rightarrow> Err e | Panicked \<Rightarrow> Panicked | Ok i \<Rightarrow> Ok (int i))
              else if wireType = 1 then Ok (int iNdEx + 8)
              else if wireType = 2 then
                (case readVarint 0 0 iNdEx rest of
                   Err e \<Rightarrow> Err e
                 | Panicked \<Rightarrow> Panicked
                 | Ok (len, i, rest') \<Rightarrow>
                     if sint len < 0 then Err ErrInvalidLengthTx
                     else Ok (wrap64 (int i + sint len)))
              else if wireType = 3 then skipGroup iNdEx rest
              else if wireType = 4 then Ok (int iNdEx)
              else if wireType = 5 then Ok (int iNdEx + 4)
              else Err ErrIllegalWireType)))"
| "skipGroup start rest =
     (case readVarint 0 0 start rest of
        Err e \<Rightarrow> Err e
      | Panicked \<Rightarrow> Panicked
      | Ok (innerWire, iNdEx, rest') \<Rightarrow>
          if unat (innerWire AND 0x7) = 4 then Ok (int iNdEx)
          else
            (case skipTx rest of
               Err e \<Rightarrow> Err e
             | Panicked \<Rightarrow> Panicked
             | Ok next \<Rightarrow>
                 if wrap64 (int start + next) \<le> int start then Panicked
                 else skipGroup (nat (wrap64 (int start + next)))
                        (drop (nat (wrap64 (int start + next)) - start) rest)))"
  by pat_completeness auto

termination
proof (relation "measure (\<lambda>x. case x of Inl dAtA \<Rightarrow> 2 * length dAtA | Inr (start, rest) \<Rightarrow> 2 * length rest + 1)")
  show "wf (measure (\<lambda>x. case x of Inl dAtA \<Rightarrow> 2 * length dAtA | Inr (start, rest) \<Rightarrow> 2 * length rest + 1))"
    by simp
next
  fix dAtA :: bytes and x2 x1 x2a x1a x2b wireType
  assume "dAtA \<noteq> []" "readVarint 0 0 0 dAtA = Ok x2" "(x1, x2a) = x2" "(x1a, x2b) = x2a"
  then have "readVarint 0 0 0 dAtA = Ok (x1, x1a, x2b)" by simp
  from readVarint_shorter [OF this]
  show "(Inr (x1a, x2b), Inl dAtA)
        \<in> measure (\<lambda>x. case x of Inl dAtA \<Rightarrow> 2 * length dAtA | Inr (start, rest) \<Rightarrow> 2 * length rest + 1)"
    by simp
next
  fix start :: nat and rest :: bytes and x2 x1 x2a x1a x2b
  show "(Inl rest, Inr (start, rest))
        \<in> measure (\<lambda>x. case x of Inl dAtA \<Rightarrow> 2 * length dAtA | Inr (start, rest) \<Rightarrow> 2 * length rest + 1)"
    by simp
next
  fix start :: nat and rest :: bytes and x2 x1 x2a x1a x2b x3
  assume r: "readVarint 0 0 start rest = Ok x2" "(x1, x2a) = x2" "(x1a, x2b) = x2a"
    and n: "\<not> wrap64 (int start + x3) \<le> int start"
  from r have "readVarint 0 0 start rest = Ok (x1, x1a, x2b)" by simp
  from readVarint_shorter [OF this] have "rest \<noteq> []" by auto
  moreover from n have "0 < nat (wrap64 (int start + x3)) - start" by simp
  ultimately have "length (drop (nat (wrap64 (int start + x3)) - start) rest) < length rest"
    by (cases rest) auto
  then show "(Inr (nat (wrap64 (int start + x3)), drop (nat (wrap64 (int start + x3)) - start) rest),
         Inr (start, rest))
        \<in> measure (\<lambda>x. case x of Inl dAtA \<Rightarrow> 2 * length dAtA | Inr (start, rest) \<Rightarrow> 2 * length rest + 1)"
    by simp
qed


declare skipTx.simps [simp del] skipGroup.simps [simp del]

subsection \<open>Records\<close>

text \<open>
  \<open>andThen\<close> goes on with the result of a call that returned one. \<open>fieldNumOf\<close> and
  \<open>wireTypeOf\<close> split a tag. \<open>readLength\<close> reads the length of a length-delimited
  field and checks it as every such case of the decoders does: a negative length is
  \<open>ErrInvalidLengthTx\<close>, an end index that exceeds the slice is \<open>io.ErrUnexpectedEOF\<close>,
  and an end index that wraps to a negative \<open>int\<close> passes that test and panics in the
  slice expression. \<open>skipField\<close> is the default case of the decoders up to the append:
  the tests on the result of \<open>skipTx\<close>. A result 0 would leave the index where it is;
  \<open>skipTx\<close> does not return it for a slice of fewer than \<open>2 ^ 62\<close> bytes
  (\<open>skipTx_not_zero\<close>), and the model ends the call there.
\<close>

definition andThen :: "'a result \<Rightarrow> ('a \<Rightarrow> 'b result) \<Rightarrow> 'b result" where
  "andThen r f = (case r of Ok x \<Rightarrow> f x | Err e \<Rightarrow> Err e | Panicked \<Rightarrow> Panicked)"

definition fieldNumOf :: "64 word \<Rightarrow> int" where
  "fieldNumOf wire = sint (ucast (drop_bit 3 wire) :: 32 word)"

definition wireTypeOf :: "64 word \<Rightarrow> nat" where
  "wireTypeOf wire = unat (wire AND 0x7)"

definition readLength :: "nat \<Rightarrow> bytes \<Rightarrow> (nat \<times> nat \<times> bytes) result" where
  "readLength iNdEx rest =
     andThen (readVarint 0 0 iNdEx rest) (\<lambda>(len, i, rest').
       if sint len < 0 then Err ErrInvalidLengthTx
       else if 2 ^ 63 \<le> i + unat len then Panicked
       else if length rest' < unat len then Err ErrUnexpectedEOF
       else Ok (unat len, i, rest'))"

definition skipField :: "nat \<Rightarrow> bytes \<Rightarrow> nat result" where
  "skipField iNdEx rest =
     andThen (skipTx rest) (\<lambda>skippy.
       if skippy < 0 then Err ErrInvalidLengthTx
       else if 2 ^ 63 \<le> int iNdEx + skippy then Panicked
       else if int (length rest) < skippy then Err ErrUnexpectedEOF
       else if skippy = 0 then Panicked
       else Ok (nat skippy))"

text \<open>
  The messages. A string and a \<open>[]byte\<close> are lists of bytes, and a nil slice is not told
  from an empty one. \<open>Actions\<close> and \<open>Signs\<close> are slices of pointers: the lists hold the
  messages pointed to, and a nil pointer among them, on which \<open>Size\<close> panics, is not a
  value of the model; \<open>Publisher\<close> is a pointer that may be nil. \<open>ActionRaw0\<close> and
  \<open>TxRaw0\<close> are the zero values \<open>&ActionRaw{}\<close> and \<open>&TxRaw{}\<close>.
\<close>

record ActionRaw =
  Contract :: bytes
  ActionName :: bytes
  Action_Data :: bytes
  Action_unrecognized :: bytes

definition ActionRaw0 :: ActionRaw where
  "ActionRaw0 = \<lparr>Contract = [], ActionName = [], Action_Data = [], Action_unrecognized = []\<rparr>"

record 'sig TxRaw =
  Time :: int64
  Expiration :: int64
  GasLimit :: int64
  GasPrice :: int64
  Actions :: "ActionRaw list"
  Signers :: "bytes list"
  Signs :: "'sig list"
  Publisher :: "'sig option"
  XXX_unrecognized :: bytes


text \<open>
  \<open>crypto.SignatureRaw\<close> and its generated codec are outside the sources; the type of
  the message is the parameter \<open>'sig\<close> and its \<open>Size\<close>, \<open>MarshalTo\<close> (the bytes it
  writes at the start of the slice handed to it, or its error) and \<open>Unmarshal\<close> into
  a message are the fields of a record, with the zero value \<open>&crypto.SignatureRaw{}\<close>
  as \<open>Sig_new\<close>.
\<close>

record 'sig SignatureRaw =
  Sig_Size :: "'sig \<Rightarrow> nat"
  Sig_MarshalTo :: "'sig \<Rightarrow> bytes result"
  Sig_Unmarshal :: "'sig \<Rightarrow> bytes \<Rightarrow> 'sig result"
  Sig_new :: 'sig

subsection \<open>Size\<close>

definition bytesSize :: "bytes \<Rightarrow> nat" where
  "bytesSize b = (let l = length b in if 0 < l then 1 + l + sovTx (of_nat l) else 0)"

definition ActionRaw_Size :: "ActionRaw \<Rightarrow> nat" where
  "ActionRaw_Size m =
     bytesSize (Contract m) + bytesSize (ActionName m) + bytesSize (Action_Data m)
     + length (Action_unrecognized m)"



subsection \<open>Marshal\<close>

text \<open>
  \<open>MarshalTo\<close> writes into the slice that \<open>Marshal\<close> allocates with \<open>Size\<close> bytes;
  its model is the list of the bytes written, in the order of the writes. \<open>Marshal\<close>
  returns these bytes when they fit the slice and panics on a write beyond it.
  \<open>ActionRaw.MarshalTo\<close> has no error.
\<close>

definition bytesField :: "byte \<Rightarrow> bytes \<Rightarrow> bytes" where
  "bytesField tag b = (if 0 < length b then tag # encodeVarintTx (of_nat (length b)) @ b else [])"

definition ActionRaw_MarshalTo :: "ActionRaw \<Rightarrow> bytes" where
  "ActionRaw_MarshalTo m =
     bytesField 0xa (Contract m) @ bytesField 0x12 (ActionName m)
     @ bytesField 0x1a (Action_Data m) @ Action_unrecognized m"

definition ActionRaw_Marshal :: "ActionRaw \<Rightarrow> bytes result" where
  "ActionRaw_Marshal m =
     (if length (ActionRaw_MarshalTo m) \<le> ActionRaw_Size m then Ok (ActionRaw_MarshalTo m)
      else Panicked)"








subsection \<open>Unmarshal\<close>

text \<open>
  One round of the loop of \<open>Unmarshal\<close>, at the index \<open>preIndex\<close> with the bytes
  \<open>dAtA\<close> from there on: the message, the index and the bytes after the field. The
  loop runs while bytes are left; it ends with the index at the end of the slice, so
  the test after it does not fail.
\<close>

definition ActionRaw_Unmarshal_step ::
  "ActionRaw \<Rightarrow> nat \<Rightarrow> bytes \<Rightarrow> (ActionRaw \<times> nat \<times> bytes) result" where
  "ActionRaw_Unmarshal_step m preIndex dAtA =
     andThen (readVarint 0 0 preIndex dAtA) (\<lambda>(wire, iNdEx, rest).
       let fieldNum = fieldNumOf wire; wireType = wireTypeOf wire in
       if wireType = 4 then Err ErrEndGroup
       else if fieldNum \<le> 0 then Err ErrIllegalTag
       else if fieldNum = 1 then
         (if wireType \<noteq> 2 then Err ErrWrongWireType
          else andThen (readLength iNdEx rest) (\<lambda>(n, i, rest').
            Ok (m\<lparr>Contract := take n rest'\<rparr>, i + n, drop n rest')))
       else if fieldNum = 2 then
         (if wireType \<noteq> 2 then Err ErrWrongWireType
          else andThen (readLength iNdEx rest) (\<lambda>(n, i, rest').
            Ok (m\<lparr>ActionName := take n rest'\<rparr>, i + n, drop n rest')))
       else if fieldNum = 3 then
         (if wireType \<noteq> 2 then Err ErrWrongWireType
          else andThen (readLength iNdEx rest) (\<lambda>(n, i, rest').
            Ok (m\<lparr>Action_Data := take n rest'\<rparr>, i + n, drop n rest')))
       else
         andThen (skipField preIndex dAtA) (\<lambda>skippy.
           Ok (m\<lparr>Action_unrecognized := Action_unrecognized m @ take skippy dAtA\<rparr>,
               preIndex + skippy, drop skippy dAtA)))"

lemma readLength_shorter:
  "readLength i rest = Ok (n, i', rest') \<Longrightarrow> length rest' < length rest"
  by (auto simp: readLength_def andThen_def split: result.splits if_splits
           dest: readVarint_shorter)

lemma skipField_pos: "skipField i rest = Ok n \<Longrightarrow> 0 < n \<and> n \<le> length rest"
  by (auto simp: skipField_def andThen_def split: result.splits if_splits)

text \<open>
  Every round that returns leaves fewer bytes; the loops end by that.
\<close>

definition consumes :: "bytes \<Rightarrow> ('m \<times> nat \<times> bytes) result \<Rightarrow> bool" where
  "consumes dAtA r = (case r of Ok (m, i, rest) \<Rightarrow> length rest < length dAtA | _ \<Rightarrow> True)"

lemma andThen_Ok: "andThen r f = Ok y \<longleftrightarrow> (\<exists>x. r = Ok x \<and> f x = Ok y)"
  by (cases r) (simp_all add: andThen_def)

lemma andThen_simps [simp]:
  "andThen (Ok x) f = f x" "andThen (Err e) f = Err e" "andThen Panicked f = Panicked"
  by (simp_all add: andThen_def)

lemma consumesD: "consumes dAtA r \<Longrightarrow> r = Ok (m, i, rest) \<Longrightarrow> length rest < length dAtA"
  by (simp add: consumes_def)

lemma consumes_Err: "consumes dAtA (Err e)"
  by (simp add: consumes_def)

lemma consumes_if:
  "(c \<Longrightarrow> consumes dAtA A) \<Longrightarrow> (\<not> c \<Longrightarrow> consumes dAtA B) \<Longrightarrow> consumes dAtA (if c then A else B)"
  by simp

lemma consumes_tag:
  assumes "\<And>wire iNdEx rest. length rest < length dAtA \<Longrightarrow> consumes dAtA (f wire iNdEx rest)"
  shows "consumes dAtA (andThen (readVarint 0 0 i dAtA) (\<lambda>(wire, iNdEx, rest). f wire iNdEx rest))"
proof (cases "readVarint 0 0 i dAtA")
  case (Ok x)
  obtain wire iNdEx rest where x: "x = (wire, iNdEx, rest)" by (cases x)
  with Ok have "length rest < length dAtA" by (auto dest: readVarint_shorter)
  from assms [OF this] Ok x show ?thesis by simp
qed (simp_all add: consumes_def)

lemma consumes_varint:
  "length rest < length dAtA \<Longrightarrow>
   consumes dAtA (andThen (readVarint 0 0 iNdEx rest) (\<lambda>(v, i, rest'). Ok (f v, i, rest')))"
  by (cases "readVarint 0 0 iNdEx rest")
     (auto simp: consumes_def dest: readVarint_shorter)

lemma consumes_length:
  "length rest < length dAtA \<Longrightarrow>
   consumes dAtA (andThen (readLength iNdEx rest)
     (\<lambda>(n, i, rest'). Ok (f n rest', i + n, drop n rest')))"
  by (cases "readLength iNdEx rest")
     (auto simp: consumes_def dest: readLength_shorter)

lemma consumes_message:
  "length rest < length dAtA \<Longrightarrow>
   consumes dAtA (andThen (readLength iNdEx rest) (\<lambda>(n, i, rest').
     andThen (g n rest') (\<lambda>msg. Ok (f msg, i + n, drop n rest'))))"
proof (cases "readLength iNdEx rest")
  case (Ok x)
  obtain n i rest' where x: "x = (n, i, rest')" by (cases x)
  assume "length rest < length dAtA"
  with Ok x show ?thesis
    by (cases "g n rest'") (auto simp: consumes_def dest: readLength_shorter)
qed (simp_all add: consumes_def)

lemma consumes_skip:
  "consumes dAtA (andThen (skipField preIndex dAtA)
     (\<lambda>skippy. Ok (f skippy, preIndex + skippy, drop skippy dAtA)))"
  by (cases "skipField preIndex dAtA") (auto simp: consumes_def dest: skipField_pos)

lemmas consumes_intros =
  consumes_if consumes_Err consumes_varint consumes_length consumes_message consumes_skip

lemma ActionRaw_Unmarshal_step_consumes: "consumes dAtA (ActionRaw_Unmarshal_step m i dAtA)"
  unfolding ActionRaw_Unmarshal_step_def Let_def
  by (rule consumes_tag) (intro consumes_intros)

lemma ActionRaw_Unmarshal_step_shorter:
  "ActionRaw_Unmarshal_step m i dAtA = Ok (m', i', r) \<Longrightarrow> length r < length dAtA"
  using ActionRaw_Unmarshal_step_consumes by (rule consumesD)

function ActionRaw_Unmarshal_loop :: "ActionRaw \<Rightarrow> nat \<Rightarrow> bytes \<Rightarrow> ActionRaw result" where
  "ActionRaw_Unmarshal_loop m iNdEx dAtA =
     (if dAtA = [] then Ok m
      else
        (case ActionRaw_Unmarshal_step m iNdEx dAtA of
           Err e \<Rightarrow> Err e
         | Panicked \<Rightarrow> Panicked
         | Ok (m', iNdEx', rest) \<Rightarrow> ActionRaw_Unmarshal_loop m' iNdEx' rest))"
  by pat_completeness auto

termination
  by (relation "measure (\<lambda>(m, i, dAtA). length dAtA)")
     (auto dest: ActionRaw_Unmarshal_step_shorter)

definition ActionRaw_Unmarshal :: "ActionRaw \<Rightarrow> bytes \<Rightarrow> ActionRaw result" where
  "ActionRaw_Unmarshal m dAtA = ActionRaw_Unmarshal_loop m 0 dAtA"

definition TxRaw_Unmarshal_step ::
  "'sig SignatureRaw \<Rightarrow> 'sig TxRaw \<Rightarrow> nat \<Rightarrow> bytes \<Rightarrow> ('sig TxRaw \<times> nat \<times> bytes) result" where
  "TxRaw_Unmarshal_step c m preIndex dAtA =
     andThen (readVarint 0 0 preIndex dAtA) (\<lambda>(wire, iNdEx, rest).
       let fieldNum = fieldNumOf wire; wireType = wireTypeOf wire in
       if wireType = 4 then Err ErrEndGroup
       else if fieldNum \<le> 0 then Err ErrIllegalTag
       else if fieldNum = 1 then
         (if wireType \<noteq> 0 then Err ErrWrongWireType
          else andThen (readVarint 0 0 iNdEx rest) (\<lambda>(v, i, rest').
            Ok (m\<lparr>Time := v\<rparr>, i, rest')))
       else if fieldNum = 2 then
         (if wireType \<noteq> 0 then Err ErrWrongWireType
          else andThen (readVarint 0 0 iNdEx rest) (\<lambda>(v, i, rest').
            Ok (m\<lparr>Expiration := v\<rparr>, i, rest')))
       else if fieldNum = 3 then
         (if wireType \<noteq> 0 then Err ErrWrongWireType
          else andThen (readVarint 0 0 iNdEx rest) (\<lambda>(v, i, rest').
            Ok (m\<lparr>GasLimit := v\<rparr>, i, rest')))
       else if fieldNum = 4 then
         (if wireType \<noteq> 0 then Err ErrWrongWireType
          else andThen (readVarint 0 0 iNdEx rest) (\<lambda>(v, i, rest').
            Ok (m\<lparr>GasPrice := v\<rparr>, i, rest')))
       else if fieldNum = 5 then
         (if wireType \<noteq> 2 then Err ErrWrongWireType
          else andThen (readLength iNdEx rest) (\<lambda>(n, i, rest').
            andThen (ActionRaw_Unmarshal ActionRaw0 (take n rest')) (\<lambda>msg.
              Ok (m\<lparr>Actions := Actions m @ [msg]\<rparr>, i + n, drop n rest'))))
       else if fieldNum = 6 then
         (if wireType \<noteq> 2 then Err ErrWrongWireType
          else andThen (readLength iNdEx rest) (\<lambda>(n, i, rest').
            Ok (m\<lparr>Signers := Signers m @ [take n rest']\<rparr>, i + n, drop n rest')))
       else if fieldNum = 7 then
         (if wireType \<noteq> 2 then Err ErrWrongWireType
          else andThen (readLength iNdEx rest) (\<lambda>(n, i, rest').
            andThen (Sig_Unmarshal c (Sig_new c) (take n rest')) (\<lambda>msg.
              Ok (m\<lparr>Signs := Signs m @ [msg]\<rparr>, i + n, drop n rest'))))
       else if fieldNum = 8 then
         (if wireType \<noteq> 2 then Err ErrWrongWireType
          else andThen (readLength iNdEx rest) (\<lambda>(n, i, rest').
            andThen (Sig_Unmarshal c (case Publisher m of None \<Rightarrow> Sig_new c | Some p \<Rightarrow> p)
                       (take n rest')) (\<lambda>msg.
              Ok (m\<lparr>Publisher := Some msg\<rparr>, i + n, drop n rest'))))
       else
         andThen (skipField preIndex dAtA) (\<lambda>skippy.
           Ok (m\<lparr>XXX_unrecognized := XXX_unrecognized m @ take skippy dAtA\<rparr>,
               preIndex + skippy, drop skippy dAtA)))"

lemma TxRaw_Unmarshal_step_consumes: "consumes dAtA (TxRaw_Unmarshal_step c m i dAtA)"
  unfolding TxRaw_Unmarshal_step_def Let_def
  by (rule consumes_tag) (intro consumes_intros)

lemma TxRaw_Unmarshal_step_shorter:
  "TxRaw_Unmarshal_step c m i dAtA = Ok (m', i', r) \<Longrightarrow> length r < length dAtA"
  using TxRaw_Unmarshal_step_consumes by (rule consumesD)

function TxRaw_Unmarshal_loop ::
  "'sig SignatureRaw \<Rightarrow> 'sig TxRaw \<Rightarrow> nat \<Rightarrow> bytes \<Rightarrow> 'sig TxRaw result" where
  "TxRaw_Unmarshal_loop c m iNdEx dAtA =
     (if dAtA = [] then Ok m
      else
        (case TxRaw_Unmarshal_step c m iNdEx dAtA of
           Err e \<Rightarrow> Err e
         | Panicked \<Rightarrow> Panicked
         | Ok (m', iNdEx', rest) \<Rightarrow> TxRaw_Unmarshal_loop c m' iNdEx' rest))"
  by pat_completeness auto

termination
  by (relation "measure (\<lambda>(c, m, i, dAtA). length dAtA)")
     (auto dest: TxRaw_Unmarshal_step_shorter)


text \<open>
  The byte lists that \<open>Unmarshal\<close> reads as a sequence of fields it does not know,
  for a message whose known field numbers are 1 to \<open>known\<close>: the tag of the first
  field is not a group end and has a field number above \<open>known\<close>, \<open>skipTx\<close> gives it a
  length within the list, and the bytes after it are such a list again. \<open>sigRoundTrips\<close>
  is what the round trip needs of the codec of a signature: \<open>MarshalTo\<close> writes
  \<open>Size\<close> bytes, and \<open>Unmarshal\<close> of them into the zero value gives the signature
  back.
\<close>

function unknownFields :: "int \<Rightarrow> bytes \<Rightarrow> bool" where
  "unknownFields known u =
     (if u = [] then True
      else
        (case readVarint 0 0 0 u of
           Ok (wire, i, rest) \<Rightarrow>
             if wireTypeOf wire \<noteq> 4 \<and> known < fieldNumOf wire then
               (case skipTx u of
                  Ok n \<Rightarrow>
                    if 0 < n \<and> n \<le> int (length u) then unknownFields known (drop (nat n) u)
                    else False
                | _ \<Rightarrow> False)
             else False
         | _ \<Rightarrow> False))"
  by pat_completeness auto

termination
  by (relation "measure (\<lambda>(k, u). length u)") auto






section \<open>Theorems\<close>

subsection \<open>IssueIOST\<close>

text \<open>
  C9. With a nonzero block number in the context, \<open>issueIOST\<close> returns an error, the
  host (so every balance) is unchanged and the cost is zero. With block number 0 and
  arguments of the declared kinds it sets the balance of the account to the amount and
  returns no error at zero cost. Whenever it returns, the cost is zero, and the
  balances are changed only if the block number is 0.
\<close>

theorem issueIOST_block_number:
  "(Context h ''number'' = VInt64 n \<and> n \<noteq> 0 \<longrightarrow>
      issueIOST h args = Return (h, [], Cost0, Some ''issue IOST in normal block''))
   \<and> (Context h ''number'' = VInt64 0 \<longrightarrow>
      issueIOST h (VString name # VInt64 amount # rest) =
        Return (h\<lparr>Balance := (Balance h)(name \<mapsto> amount)\<rparr>, [], Cost0, None))
   \<and> (issueIOST h args = Return (h', rtn, c, e) \<longrightarrow>
      c = Cost0 \<and> (e = None \<longleftrightarrow> Context h ''number'' = VInt64 0)
      \<and> (Balance h' \<noteq> Balance h \<longrightarrow> Context h ''number'' = VInt64 0))"
  by (auto simp: issueIOST_def SetBalance_def split: val.splits list.splits if_splits)

theorem issueIOST_block_number_witness:
  "issueIOST \<lparr>Context = (\<lambda>k. if k = ''number'' then VInt64 7 else VNil), Balance = Map.empty\<rparr>
      [VString ''alice'', VInt64 100]
    = Return (\<lparr>Context = (\<lambda>k. if k = ''number'' then VInt64 7 else VNil), Balance = Map.empty\<rparr>,
        [], Cost0, Some ''issue IOST in normal block'')
   \<and> issueIOST \<lparr>Context = (\<lambda>k. if k = ''number'' then VInt64 0 else VNil), Balance = Map.empty\<rparr>
      [VString ''alice'', VInt64 100]
    = Return (\<lparr>Context = (\<lambda>k. if k = ''number'' then VInt64 0 else VNil),
                Balance = [''alice'' \<mapsto> 100]\<rparr>, [], Cost0, None)"
  using issueIOST_block_number
    [of "\<lparr>Context = (\<lambda>k. if k = ''number'' then VInt64 7 else VNil), Balance = Map.empty\<rparr>" 7
        "[VString ''alice'', VInt64 100]" "''alice''" 100 "[]"]
    issueIOST_block_number
    [of "\<lparr>Context = (\<lambda>k. if k = ''number'' then VInt64 0 else VNil), Balance = Map.empty\<rparr>" 0
        "[VString ''alice'', VInt64 100]" "''alice''" 100 "[]"]
  by simp

subsection \<open>NewKeyPair\<close>

text \<open>
  C10. For a secret key that is not nil, \<open>NewKeyPair\<close> returns an error exactly when
  the key is not 32 bytes long for Secp256k1 or not 64 bytes long for Ed25519. For a
  nil key, the key that the algorithm generates (of the algorithm's key length) is
  used and the call succeeds. Every key pair returned has the public key that
  \<open>GetPubkey\<close> derives from its secret key.
\<close>

theorem NewKeyPair_error_iff:
  "(isl (NewKeyPair gen pub (Some k) algo) \<longleftrightarrow>
      (algo = Secp256k1 \<and> length k \<noteq> 32) \<or> (algo = Ed25519 \<and> length k \<noteq> 64))
   \<and> (length (gen algo) = seckeyLen algo \<longrightarrow>
        NewKeyPair gen pub None algo =
          Inr \<lparr>Algorithm = algo, Pubkey = pub algo (gen algo), Seckey = gen algo\<rparr>)
   \<and> (NewKeyPair gen pub seckey algo = Inr kp \<longrightarrow>
        Algorithm kp = algo \<and> Pubkey kp = pub algo (Seckey kp)
        \<and> (\<forall>k. seckey = Some k \<longrightarrow> Seckey kp = k))"
  by (cases algo) (auto simp: NewKeyPair_def seckeyLen_def Let_def split: option.splits)

theorem NewKeyPair_error_iff_witness:
  "isl (NewKeyPair (\<lambda>a. replicate (seckeyLen a) 1) (\<lambda>a k. take 8 k) (Some [1, 2, 3]) Secp256k1)
   \<and> \<not> isl (NewKeyPair (\<lambda>a. replicate (seckeyLen a) 1) (\<lambda>a k. take 8 k) (Some (replicate 64 7)) Ed25519)
   \<and> NewKeyPair (\<lambda>a. replicate (seckeyLen a) 1) (\<lambda>a k. take 8 k) None Secp256k1 =
       Inr \<lparr>Algorithm = Secp256k1, Pubkey = replicate 8 1, Seckey = replicate 32 1\<rparr>"
  using NewKeyPair_error_iff
      [of "\<lambda>a. replicate (seckeyLen a) 1" "\<lambda>a k. take 8 k" "[1, 2, 3]" Secp256k1]
    NewKeyPair_error_iff
      [of "\<lambda>a. replicate (seckeyLen a) 1" "\<lambda>a k. take 8 k" "replicate 64 7" Ed25519]
    NewKeyPair_error_iff
      [of "\<lambda>a. replicate (seckeyLen a) 1" "\<lambda>a k. take 8 k" _ Secp256k1]
  by (simp add: seckeyLen_def)

subsection \<open>The transaction pool: receiving a transaction\<close>

lemma existTxInChain_panics: "existTxInChain env pool txHash blk = Some Panic"
  unfolding existTxInChain_def
  by (subst existTxInChain_loop.simps) (simp add: existTxInBlock_def Load_def)

lemma addTx_panics: "addTx env pool tx = Some Panic"
  by (simp add: addTx_def Let_def existTxInChain_panics split: option.splits)

text \<open>
  C1. One round of \<open>loop\<close> on a message of \<open>chTx\<close> ends, and when it returns the pool
  is as it was: no transaction is inserted into \<open>pendingTx\<close>, whether \<open>VerifySelf\<close>
  succeeds or not. A decoded transaction that is not timed out and whose
  \<open>VerifySelf\<close> fails is handed to \<open>addTx\<close> (the test of \<open>loop\<close> is
  \<open>tx.VerifySelf() != nil\<close>), which panics before it stores anything; a decoded
  transaction whose \<open>VerifySelf\<close> succeeds is dropped.
\<close>

theorem loop_chTx_never_inserts:
  "(\<exists>r. loop_chTx env pool nTime body = Some r)
   \<and> (loop_chTx env pool nTime body = Some (Return pool') \<longrightarrow> pool' = pool)
   \<and> (Decode env body = Some tx \<and> \<not> txTimeOut nTime tx \<and> VerifySelf env tx \<noteq> None
        \<longrightarrow> loop_chTx env pool nTime body = Some Panic)
   \<and> (Decode env body = Some tx \<and> VerifySelf env tx = None
        \<longrightarrow> loop_chTx env pool nTime body = Some (Return pool))"
  by (auto simp: loop_chTx_def addTx_panics split: option.splits)

lemma ex_tx_not_timed_out: "txTimeOut 100 ex_tx = False"
  by (simp add: txTimeOut_def ex_tx_def int64_div_def expiration_def word_sle_eq word_sless_alt
        signed_divide_int_def)

theorem loop_chTx_never_inserts_witness:
  "loop_chTx (ex_env (Some ''signer error'')) ex_pool 100 [] = Some Panic
   \<and> loop_chTx (ex_env None) ex_pool 100 [] = Some (Return ex_pool)"
  using loop_chTx_never_inserts [of "ex_env (Some ''signer error'')" ex_pool 100 "[]" ex_pool ex_tx]
    loop_chTx_never_inserts [of "ex_env None" ex_pool 100 "[]" ex_pool ex_tx]
  by (simp add: ex_env_def ex_tx_not_timed_out)

subsection \<open>The transaction pool: the sorted snapshot\<close>

lemma sint_eq_iff: "sint (a :: int64) = sint b \<longleftrightarrow> a = b"
  by (auto intro: signed_word_eqI)

lemma Less_iff: "Less a b \<longleftrightarrow> byPriceThenTime a b"
  by (auto simp: Less_def byPriceThenTime_def word_sless_alt word_sle_eq sint_eq_iff)

lemma byPriceThenTime_total: "\<not> byPriceThenTime a b \<Longrightarrow> byPriceThenTime b a"
  by (auto simp: byPriceThenTime_def word_sless_alt word_sle_eq sint_eq_iff)

lemma byPriceThenTime_trans: "byPriceThenTime a b \<Longrightarrow> byPriceThenTime b c \<Longrightarrow> byPriceThenTime a c"
  unfolding byPriceThenTime_def word_sless_alt word_sle_eq
  by (auto simp: sint_eq_iff)

lemma mset_insertDown: "mset (insertDown lt x front) = add_mset x (mset front)"
  by (induction front) auto

lemma set_insertDown: "set (insertDown lt x front) = insert x (set front)"
  by (induction front) auto

lemma mset_foldl_insertDown:
  "mset (foldl (\<lambda>front x. insertDown lt x front) front xs) = mset front + mset xs"
  by (induction xs arbitrary: front) (simp_all add: mset_insertDown)

lemma sorted_insertDown:
  "sorted_wrt (\<lambda>a b. byPriceThenTime b a) front
     \<Longrightarrow> sorted_wrt (\<lambda>a b. byPriceThenTime b a) (insertDown Less x front)"
proof (induction front)
  case Nil
  then show ?case by simp
next
  case (Cons y front)
  show ?case
  proof (cases "Less x y")
    case True
    then have xy: "byPriceThenTime x y" by (simp add: Less_iff)
    with True Cons show ?thesis by (auto simp: set_insertDown)
  next
    case False
    then have yx: "byPriceThenTime y x" by (simp add: Less_iff byPriceThenTime_total)
    have "\<forall>z\<in>set front. byPriceThenTime z x"
      using Cons.prems yx byPriceThenTime_trans by auto
    with False yx Cons.prems show ?thesis by simp
  qed
qed

lemma sorted_foldl_insertDown:
  "sorted_wrt (\<lambda>a b. byPriceThenTime b a) front
     \<Longrightarrow> sorted_wrt (\<lambda>a b. byPriceThenTime b a) (foldl (\<lambda>front x. insertDown Less x front) front xs)"
  by (induction xs arbitrary: front) (simp_all add: sorted_insertDown)

lemma Less_eq: "Less = byPriceThenTime"
  by (intro ext) (simp add: Less_iff)

lemma insertionSort_sortsBy: "sortsBy Less (insertionSort Less)"
  unfolding sortsBy_def insertionSort_def Less_eq [symmetric, THEN fun_cong, THEN fun_cong]
  using sorted_foldl_insertDown [of "[]"]
  by (simp add: mset_foldl_insertDown sorted_wrt_rev Less_eq)

lemma sorted_wrt_take: "sorted_wrt P xs \<Longrightarrow> sorted_wrt P (take n xs)"
  by (induction xs arbitrary: n) (auto simp: take_Cons split: nat.splits dest: in_set_takeD)

lemma mset_take_subseteq: "mset (take n xs) \<subseteq># mset xs"
proof -
  have "mset xs = mset (take n xs) + mset (drop n xs)"
    by (metis append_take_drop_id mset_append)
  then show ?thesis by simp
qed

text \<open>
  C7. Let \<open>sort.Sort\<close> rearrange a list so that every element is \<open>Less\<close> each later
  one. \<open>TxsList.Less\<close> decides the order of the claim: a higher gas price first, for
  equal gas prices the earlier time first. For \<open>maxCnt \<ge> 0\<close>,
  \<open>PendingTxs\<close> returns, with a nil error, the first \<open>maxCnt\<close> transactions of the
  sorted list of the pending ones: \<open>min (number of pending transactions) maxCnt\<close>
  transactions, each taken from \<open>pendingTx\<close> no more often than it is there, in that
  order. A negative \<open>maxCnt\<close> panics. The producer's \<open>PendingTx\<close> pairs the sorted
  snapshot of all pending transactions with the head of the block cache in the state
  of the call.
\<close>

theorem PendingTxs_sorted:
  "sortsBy Less sort_Sort \<longrightarrow>
     (0 \<le> maxCnt \<longrightarrow>
        (\<exists>txs. PendingTxs sort_Sort pool maxCnt = Return (txs, None)
           \<and> txs = take (nat maxCnt) (sort_Sort (map snd (pendingTx pool)))
           \<and> length txs = min (length (pendingTx pool)) (nat maxCnt)
           \<and> mset txs \<subseteq># mset (map snd (pendingTx pool))
           \<and> sorted_wrt byPriceThenTime txs))
     \<and> (maxCnt < 0 \<longrightarrow> PendingTxs sort_Sort pool maxCnt = Panic)
     \<and> (\<exists>txs. PendingTx sort_Sort pool = Return (txs, BlockCache_Head (chain pool))
           \<and> mset txs = mset (map snd (pendingTx pool))
           \<and> sorted_wrt byPriceThenTime txs)
     \<and> (\<forall>a b. Less a b = byPriceThenTime a b)"
proof
  assume c: "sortsBy Less sort_Sort"
  let ?l = "sort_Sort (map snd (pendingTx pool))"
  from c have m: "mset ?l = mset (map snd (pendingTx pool))" and s: "sorted_wrt byPriceThenTime ?l"
    unfolding sortsBy_def Less_eq by blast+
  from m have len: "length ?l = length (pendingTx pool)"
    using mset_eq_length by fastforce
  have 1: "\<exists>txs. PendingTxs sort_Sort pool maxCnt = Return (txs, None)
           \<and> txs = take (nat maxCnt) ?l
           \<and> length txs = min (length (pendingTx pool)) (nat maxCnt)
           \<and> mset txs \<subseteq># mset (map snd (pendingTx pool))
           \<and> sorted_wrt byPriceThenTime txs" if p: "0 \<le> maxCnt"
  proof -
    have r: "PendingTxs sort_Sort pool maxCnt = Return (take (nat maxCnt) ?l, None)"
      using p by (auto simp: PendingTxs_def Let_def len)
    have i: "mset (take (nat maxCnt) ?l) \<subseteq># mset (map snd (pendingTx pool))"
      using mset_take_subseteq [of "nat maxCnt" ?l] m by simp
    have o: "sorted_wrt byPriceThenTime (take (nat maxCnt) ?l)"
      using s by (rule sorted_wrt_take)
    from r i o len show ?thesis by (simp add: min_def)
  qed
  have 2: "PendingTxs sort_Sort pool maxCnt = Panic" if "maxCnt < 0"
    using that by (auto simp: PendingTxs_def Let_def)
  have "PendingTxs sort_Sort pool (int (length (pendingTx pool))) = Return (?l, None)"
    by (simp add: PendingTxs_def Let_def len)
  then have 3: "PendingTx sort_Sort pool = Return (?l, BlockCache_Head (chain pool))"
    by (simp add: PendingTx_def)
  from 1 2 3 m s Less_iff
  show "(0 \<le> maxCnt \<longrightarrow>
        (\<exists>txs. PendingTxs sort_Sort pool maxCnt = Return (txs, None)
           \<and> txs = take (nat maxCnt) (sort_Sort (map snd (pendingTx pool)))
           \<and> length txs = min (length (pendingTx pool)) (nat maxCnt)
           \<and> mset txs \<subseteq># mset (map snd (pendingTx pool))
           \<and> sorted_wrt byPriceThenTime txs))
     \<and> (maxCnt < 0 \<longrightarrow> PendingTxs sort_Sort pool maxCnt = Panic)
     \<and> (\<exists>txs. PendingTx sort_Sort pool = Return (txs, BlockCache_Head (chain pool))
           \<and> mset txs = mset (map snd (pendingTx pool))
           \<and> sorted_wrt byPriceThenTime txs)
     \<and> (\<forall>a b. Less a b = byPriceThenTime a b)"
    by blast
qed

lemma ex_sorted:
  "insertionSort Less (map snd (pendingTx ex_three_pool)) = [ex_tx2, ex_tx3, ex_tx]"
  by (simp add: insertionSort_def ex_three_pool_def Less_def ex_tx_def ex_tx2_def ex_tx3_def
        word_sless_alt)

theorem PendingTxs_sorted_witness:
  "sortsBy Less (insertionSort Less)
   \<and> PendingTxs (insertionSort Less) ex_three_pool 2 = Return ([ex_tx2, ex_tx3], None)
   \<and> PendingTxs (insertionSort Less) ex_three_pool (- 1) = Panic
   \<and> PendingTx (insertionSort Less) ex_three_pool = Return ([ex_tx2, ex_tx3, ex_tx], ex_node)"
proof -
  have h: "BlockCache_Head (chain ex_three_pool) = ex_node" by (simp add: ex_three_pool_def)
  from PendingTxs_sorted [of "insertionSort Less" 2 ex_three_pool] insertionSort_sortsBy
  have 1: "PendingTxs (insertionSort Less) ex_three_pool 2 = Return ([ex_tx2, ex_tx3], None)"
    by (auto simp: ex_sorted)
  from PendingTxs_sorted [of "insertionSort Less" "- 1" ex_three_pool] insertionSort_sortsBy
  have 2: "PendingTxs (insertionSort Less) ex_three_pool (- 1) = Panic"
    by simp
  have 3: "PendingTx (insertionSort Less) ex_three_pool = Return ([ex_tx2, ex_tx3, ex_tx], ex_node)"
    by (simp add: PendingTx_def PendingTxs_def Let_def ex_sorted h) (simp add: ex_three_pool_def)
  from 1 2 3 insertionSort_sortsBy show ?thesis by simp
qed

subsection \<open>The transaction pool: looking a transaction up\<close>

text \<open>
  C2 fails in the code. \<open>ExistTxs\<close> first calls \<open>existTxInPending\<close>, whose
  \<open>pendingTx.Load(hash)\<close> is handed a \<open>[]byte\<close> key and panics: for every pool, hash
  and block the call ends in a panic and returns none of \<open>FoundPending\<close>,
  \<open>FoundChain\<close> and \<open>NotFound\<close>.
\<close>

theorem ExistTxs_panics: "ExistTxs env pool hash chainBlock = Some Panic"
  by (simp add: ExistTxs_def existTxInPending_def Load_def)

subsection \<open>The transaction pool: a linked node\<close>


subsection \<open>The block cache: linking and the serial number\<close>

lemma addExistingBlock_Suc:
  "addExistingBlock env (Suc k) p blk parentNode replay =
     (case Find (blockCache p) (HeadHash blk) of
        None \<Rightarrow> Some Panic
      | Some node \<Rightarrow>
          if blockNumPerWitness \<le>s nextSerial env blk parentNode
          then Some (Return (withSerial p blk (nextSerial env blk parentNode), Some errOutOfLimit))
          else
            (case verified env (withSerial p blk (nextSerial env blk parentNode)) blk parentNode replay of
               Some err \<Rightarrow>
                 Some (Return ((withSerial p blk (nextSerial env blk parentNode))
                   \<lparr>blockCache := Del (blockCache (withSerial p blk (nextSerial env blk parentNode)))
                                    (HeadHash blk)\<rparr>, Some err))
             | None \<Rightarrow>
                 if Blk_Witness (Blk_Head (CN_Block node)) \<noteq> ReadablePubkey env
                    \<and> length (Blk_Witness (Blk_Head (CN_Block node))) < 10
                 then Some Panic
                 else
                 (case addChildren env k
                         (linkedState env (withSerial p blk (nextSerial env blk parentNode)) blk
                            (node\<lparr>SerialNum := nextSerial env blk parentNode, CN_Type := Linked\<rparr>) replay)
                         (rangeChildren env
                            (Children (blockCache (linkedState env (withSerial p blk (nextSerial env blk parentNode)) blk
                               (node\<lparr>SerialNum := nextSerial env blk parentNode, CN_Type := Linked\<rparr>) replay))
                               (HeadHash blk)))
                         (node\<lparr>SerialNum := nextSerial env blk parentNode, CN_Type := Linked\<rparr>) replay of
                    None \<Rightarrow> None
                  | Some Panic \<Rightarrow> Some Panic
                  | Some (Return p6) \<Rightarrow> Some (Return (p6, None)))))"
  unfolding addExistingBlock.simps nextSerial_def withSerial_def verified_def linkedState_def Let_def
  by (rule refl)

declare addExistingBlock.simps(2) [simp del]

lemma addExistingBlock_Return_cases:
  assumes "addExistingBlock env (Suc k) p blk parentNode replay = Some (Return (p', e))"
  obtains
    (reject) node where "Find (blockCache p) (HeadHash blk) = Some node"
      "blockNumPerWitness \<le>s nextSerial env blk parentNode"
      "p' = withSerial p blk (nextSerial env blk parentNode)" "e = Some errOutOfLimit"
  | (failed) node err where "Find (blockCache p) (HeadHash blk) = Some node"
      "\<not> blockNumPerWitness \<le>s nextSerial env blk parentNode"
      "verified env (withSerial p blk (nextSerial env blk parentNode)) blk parentNode replay = Some err"
      "p' = (withSerial p blk (nextSerial env blk parentNode))
              \<lparr>blockCache := Del (blockCache (withSerial p blk (nextSerial env blk parentNode)))
                                    (HeadHash blk)\<rparr>"
      "e = Some err"
  | (linked) node where "Find (blockCache p) (HeadHash blk) = Some node"
      "\<not> blockNumPerWitness \<le>s nextSerial env blk parentNode"
      "verified env (withSerial p blk (nextSerial env blk parentNode)) blk parentNode replay = None"
      "addChildren env k
         (linkedState env (withSerial p blk (nextSerial env blk parentNode)) blk
            (node\<lparr>SerialNum := nextSerial env blk parentNode, CN_Type := Linked\<rparr>) replay)
         (rangeChildren env
            (Children (blockCache (linkedState env (withSerial p blk (nextSerial env blk parentNode)) blk
               (node\<lparr>SerialNum := nextSerial env blk parentNode, CN_Type := Linked\<rparr>) replay))
               (HeadHash blk)))
         (node\<lparr>SerialNum := nextSerial env blk parentNode, CN_Type := Linked\<rparr>) replay
        = Some (Return p')"
      "e = None"
proof (cases "Find (blockCache p) (HeadHash blk)")
  case None
  with assms show ?thesis by (simp add: addExistingBlock_Suc)
next
  case f: (Some node)
  show ?thesis
  proof (cases "blockNumPerWitness \<le>s nextSerial env blk parentNode")
    case True
    with assms f have "p' = withSerial p blk (nextSerial env blk parentNode)" "e = Some errOutOfLimit"
      by (simp_all add: addExistingBlock_Suc)
    with f True show ?thesis by (rule reject)
  next
    case False
    show ?thesis
    proof (cases "verified env (withSerial p blk (nextSerial env blk parentNode)) blk parentNode replay")
      case (Some err)
      with assms f False
      have "p' = (withSerial p blk (nextSerial env blk parentNode))
              \<lparr>blockCache := Del (blockCache (withSerial p blk (nextSerial env blk parentNode)))
                                    (HeadHash blk)\<rparr>" "e = Some err"
        by (simp_all add: addExistingBlock_Suc)
      with f False Some show ?thesis by (rule failed)
    next
      case None
      with assms f False
      have "addChildren env k
         (linkedState env (withSerial p blk (nextSerial env blk parentNode)) blk
            (node\<lparr>SerialNum := nextSerial env blk parentNode, CN_Type := Linked\<rparr>) replay)
         (rangeChildren env
            (Children (blockCache (linkedState env (withSerial p blk (nextSerial env blk parentNode)) blk
               (node\<lparr>SerialNum := nextSerial env blk parentNode, CN_Type := Linked\<rparr>) replay))
               (HeadHash blk)))
         (node\<lparr>SerialNum := nextSerial env blk parentNode, CN_Type := Linked\<rparr>) replay
        = Some (Return p')" "e = None"
        by (simp_all add: addExistingBlock_Suc split: option.splits outcome.splits if_splits)
      with f False None show ?thesis by (rule linked)
    qed
  qed
qed


























































subsection \<open>The block cache: receiving a block\<close>

text \<open>
  C4 (amended). \<open>handleRecvBlock\<close> returns \<open>errDuplicate\<close> and leaves the engine, so
  the block cache, unchanged when the head hash of the block is in the cache. When the
  block is not in the cache and passes \<open>verifyBasics\<close>, and its parent is absent from
  the cache or not Linked, the block is added as Single and \<open>errSingle\<close> is returned.
  A block that is not in the cache and fails \<open>verifyBasics\<close> is not added, and the
  error of \<open>verifyBasics\<close> is returned.
\<close>

theorem handleRecvBlock_duplicate_single:
  "(Find (blockCache p) (HeadHash blk) = Some n \<longrightarrow>
      handleRecvBlock env k p blk = Some (Return (p, Some errDuplicate)))
   \<and> (Find (blockCache p) (HeadHash blk) = None \<and> verifyBasics env blk = None
       \<and> (\<forall>q. Find (blockCache p) (Blk_ParentHash (Blk_Head blk)) = Some q \<longrightarrow> CN_Type q \<noteq> Linked)
      \<longrightarrow> handleRecvBlock env k p blk =
            Some (Return (p\<lparr>blockCache := blockCache p @
                              [(HeadHash blk, \<lparr>CN_Block = blk, CN_Type = Single, SerialNum = 0\<rparr>)]\<rparr>,
                          Some errSingle)))
   \<and> (Find (blockCache p) (HeadHash blk) = None \<and> verifyBasics env blk = Some err
      \<longrightarrow> handleRecvBlock env k p blk = Some (Return (p, Some err)))"
  by (auto simp: handleRecvBlock_def Add_def Find_def Let_def split: option.splits)

theorem handleRecvBlock_duplicate_single_witness:
  "handleRecvBlock ex_collab 3 (ex_pob 0) ex_blkB = Some (Return (ex_pob 0, Some errDuplicate))
   \<and> handleRecvBlock ex_collab 3 (ex_pob 0) ex_blkC =
       Some (Return ((ex_pob 0)\<lparr>blockCache := blockCache (ex_pob 0) @
                [([9], \<lparr>CN_Block = ex_blkC, CN_Type = Single, SerialNum = 0\<rparr>)]\<rparr>, Some errSingle))"
  using handleRecvBlock_duplicate_single [of "ex_pob 0" ex_blkB ex_nodeB ex_collab 3]
    handleRecvBlock_duplicate_single [of "ex_pob 0" ex_blkC _ ex_collab 3]
  by (simp add: ex_pob_def Find_def ex_blkB_def ex_blkC_def ex_nodeB_def ex_collab_def)

text \<open>
  C4 as stated fails: the block \<open>ex_blkC\<close> is not in the cache and its parent is absent,
  but it fails \<open>verifyBasics\<close>; it is not added and the error returned is not
  \<open>errSingle\<close>.
\<close>

theorem handleRecvBlock_verifyBasics_counterexample:
  "Find (blockCache (ex_pob 0)) (HeadHash ex_blkC) = None
   \<and> Find (blockCache (ex_pob 0)) (Blk_ParentHash (Blk_Head ex_blkC)) = None
   \<and> handleRecvBlock (ex_collab\<lparr>verifyBasics := \<lambda>b. Some (OtherError ''signature'')\<rparr>) 3 (ex_pob 0) ex_blkC
       = Some (Return (ex_pob 0, Some (OtherError ''signature'')))"
  by (simp add: handleRecvBlock_def ex_pob_def Find_def ex_blkC_def ex_collab_def)

subsection \<open>Verifying an incoming block: the broadcast of the block hash\<close>

lemma addChildren_p2pService:
  assumes "keepsBroadcasts env k"
  shows "addChildren env k p children y replay = Some (Return p'') \<Longrightarrow> p2pService p'' = p2pService p"
proof (induction children arbitrary: p)
  case Nil
  then show ?case by simp
next
  case (Cons ch rest)
  from Cons.prems obtain p1 e1 where
    r: "addExistingBlock env k p (CN_Block ch) y replay = Some (Return (p1, e1))"
    and c: "addChildren env k p1 rest y replay = Some (Return p'')"
    by (auto split: option.splits outcome.splits)
  from assms r have "p2pService p1 = p2pService p" unfolding keepsBroadcasts_def by blast
  with Cons.IH [OF c] show ?case by simp
qed

lemma p2pService_withSerial: "p2pService (withSerial p blk s) = p2pService p"
  by (simp add: withSerial_def)

lemma p2pService_linkedState: "p2pService (linkedState env p blk n replay) = p2pService p"
  by (simp add: linkedState_def Let_def)

lemma keepsBroadcasts_all: "keepsBroadcasts env k"
proof (induction k)
  case 0
  show ?case by (simp add: keepsBroadcasts_def)
next
  case (Suc k)
  show ?case
    unfolding keepsBroadcasts_def
  proof (intro allI impI)
    fix p blk pn replay p' e
    assume "addExistingBlock env (Suc k) p blk pn replay = Some (Return (p', e))"
    then show "p2pService p' = p2pService p"
    proof (cases rule: addExistingBlock_Return_cases)
      case (reject node)
      then show ?thesis by (simp add: p2pService_withSerial)
    next
      case (failed node err)
      then show ?thesis by (simp add: p2pService_withSerial)
    next
      case (linked node)
      from addChildren_p2pService [OF Suc linked(4)] show ?thesis
        by (simp add: p2pService_withSerial p2pService_linkedState)
    qed
  qed
qed

lemma addExistingBlock_p2pService:
  "addExistingBlock env k p blk pn replay = Some (Return (p', e)) \<Longrightarrow> p2pService p' = p2pService p"
  using keepsBroadcasts_all [of env k] unfolding keepsBroadcasts_def by blast

lemma handleRecvBlock_p2pService:
  "handleRecvBlock env k p blk = Some (Return (p', e)) \<Longrightarrow> p2pService p' = p2pService p"
  by (auto simp: handleRecvBlock_def Let_def split: option.splits if_splits
      dest!: addExistingBlock_p2pService)

text \<open>
  C5. Let \<open>handleRecvBlock\<close> return for the block, and let the encoding of the block
  info succeed. For a message tagged \<open>NewBlock\<close>, \<open>doVerifyBlock\<close> broadcasts exactly
  one message, the encoded block info as \<open>NewBlockHash\<close>, when \<open>handleRecvBlock\<close>
  returned nil or \<open>errSingle\<close>, and broadcasts nothing when it returned
  \<open>errDuplicate\<close> or another error. For a message tagged \<open>SyncBlockResponse\<close> it
  broadcasts nothing.
\<close>

theorem doVerifyBlock_broadcast:
  "handleRecvBlock env k p blk = Some (Return (p', err))
   \<and> Marshal env \<lparr>Info_Number = Blk_Number (Blk_Head blk), Info_Hash = HeadHash blk\<rparr> = Some b
   \<longrightarrow>
   (\<exists>p''. doVerifyBlock env k p \<lparr>Blk = blk, P2PType = NewBlock\<rparr> = Some (Return p'')
        \<and> p2pService p'' =
            p2pService p @ (if err = None \<or> err = Some errSingle
                            then [(b, NewBlockHash, UrgentMessage)] else []))
   \<and> (\<exists>p''. doVerifyBlock env k p \<lparr>Blk = blk, P2PType = SyncBlockResponse\<rparr> = Some (Return p'')
        \<and> p2pService p'' = p2pService p)"
proof
  assume a: "handleRecvBlock env k p blk = Some (Return (p', err))
   \<and> Marshal env \<lparr>Info_Number = Blk_Number (Blk_Head blk), Info_Hash = HeadHash blk\<rparr> = Some b"
  then have h: "handleRecvBlock env k p blk = Some (Return (p', err))"
    and m: "Marshal env \<lparr>Info_Number = Blk_Number (Blk_Head blk), Info_Hash = HeadHash blk\<rparr> = Some b"
    by simp_all
  from handleRecvBlock_p2pService [OF h] have s: "p2pService p' = p2pService p" .
  have 1: "doVerifyBlock env k p \<lparr>Blk = blk, P2PType = NewBlock\<rparr> =
      Some (Return (if err = Some errSingle \<or> err = None then broadcastBlockHash env p' blk else p'))"
    using h by (simp add: doVerifyBlock_def)
  have 2: "p2pService (if err = Some errSingle \<or> err = None then broadcastBlockHash env p' blk else p')
      = p2pService p @ (if err = None \<or> err = Some errSingle
                            then [(b, NewBlockHash, UrgentMessage)] else [])"
    using s m by (auto simp: broadcastBlockHash_def)
  have 3: "doVerifyBlock env k p \<lparr>Blk = blk, P2PType = SyncBlockResponse\<rparr> = Some (Return p')"
    using h by (simp add: doVerifyBlock_def)
  from 1 2 3 s show "(\<exists>p''. doVerifyBlock env k p \<lparr>Blk = blk, P2PType = NewBlock\<rparr> = Some (Return p'')
        \<and> p2pService p'' =
            p2pService p @ (if err = None \<or> err = Some errSingle
                            then [(b, NewBlockHash, UrgentMessage)] else []))
   \<and> (\<exists>p''. doVerifyBlock env k p \<lparr>Blk = blk, P2PType = SyncBlockResponse\<rparr> = Some (Return p'')
        \<and> p2pService p'' = p2pService p)"
    by blast
qed

lemma ex_recv_duplicate:
  "handleRecvBlock ex_collab 3 (ex_pob 0) ex_blkB = Some (Return (ex_pob 0, Some errDuplicate))"
  by (simp add: handleRecvBlock_def ex_pob_def Find_def ex_blkB_def)

lemma ex_recv_single:
  "handleRecvBlock ex_collab 3 (ex_pob 0) ex_blkC =
     Some (Return ((ex_pob 0)\<lparr>blockCache := blockCache (ex_pob 0) @
                [([9], \<lparr>CN_Block = ex_blkC, CN_Type = Single, SerialNum = 0\<rparr>)]\<rparr>, Some errSingle))"
  by (simp add: handleRecvBlock_def ex_pob_def Find_def ex_blkC_def ex_collab_def Add_def)

theorem doVerifyBlock_broadcast_witness:
  "doVerifyBlock ex_collab 3 (ex_pob 0) \<lparr>Blk = ex_blkC, P2PType = NewBlock\<rparr> =
      Some (Return ((ex_pob 0)\<lparr>blockCache := blockCache (ex_pob 0) @
                [([9], \<lparr>CN_Block = ex_blkC, CN_Type = Single, SerialNum = 0\<rparr>)],
                p2pService := [([9], NewBlockHash, UrgentMessage)]\<rparr>))
   \<and> doVerifyBlock ex_collab 3 (ex_pob 0) \<lparr>Blk = ex_blkB, P2PType = NewBlock\<rparr> =
      Some (Return (ex_pob 0))
   \<and> doVerifyBlock ex_collab 3 (ex_pob 0) \<lparr>Blk = ex_blkC, P2PType = SyncBlockResponse\<rparr> =
      Some (Return ((ex_pob 0)\<lparr>blockCache := blockCache (ex_pob 0) @
                [([9], \<lparr>CN_Block = ex_blkC, CN_Type = Single, SerialNum = 0\<rparr>)]\<rparr>))"
proof -
  have m: "\<And>blk. Marshal ex_collab \<lparr>Info_Number = Blk_Number (Blk_Head blk), Info_Hash = HeadHash blk\<rparr>
             = Some (HeadHash blk)"
    by (simp add: ex_collab_def)
  from doVerifyBlock_broadcast [of ex_collab 3 "ex_pob 0" ex_blkC _ "Some errSingle" "[9]"]
    ex_recv_single m [of ex_blkC]
  have 1: "\<exists>p''. doVerifyBlock ex_collab 3 (ex_pob 0) \<lparr>Blk = ex_blkC, P2PType = NewBlock\<rparr> = Some (Return p'')
        \<and> p2pService p'' = p2pService (ex_pob 0) @ [([9], NewBlockHash, UrgentMessage)]"
    by (simp add: ex_blkC_def)
  from doVerifyBlock_broadcast [of ex_collab 3 "ex_pob 0" ex_blkB _ "Some errDuplicate" "[2]"]
    ex_recv_duplicate m [of ex_blkB]
  have 2: "\<exists>p''. doVerifyBlock ex_collab 3 (ex_pob 0) \<lparr>Blk = ex_blkB, P2PType = NewBlock\<rparr> = Some (Return p'')
        \<and> p2pService p'' = p2pService (ex_pob 0)"
    by (simp add: ex_blkB_def)
  show ?thesis
    using 1 2 ex_recv_single ex_recv_duplicate m [of ex_blkC]
    by (simp add: doVerifyBlock_def broadcastBlockHash_def ex_pob_def ex_blkC_def)
qed

subsection \<open>The codec of transactions: varints\<close>














lemma encodeVarintTx_not_Nil: "encodeVarintTx v \<noteq> []"
  by (subst encodeVarintTx.simps) simp







declare ActionRaw_Unmarshal_loop.simps [simp del] TxRaw_Unmarshal_loop.simps [simp del]
  unknownFields.simps [simp del]





subsection \<open>The codec of transactions: the round trip of an action\<close>













subsection \<open>The codec of transactions: the round trip of a transaction\<close>































lemma readVarint_index_bounds:
  "readVarint s v i u = Ok (w, i', r) \<Longrightarrow> i < i' \<and> i' + length r = i + length u"
  by (induction s v i u rule: readVarint.induct) (auto split: if_splits)

lemma skipVarint_index: "skipVarint s i u = Ok i' \<Longrightarrow> i < i'"
  by (induction s i u rule: skipVarint.induct) (auto split: if_splits)


lemma skipGroup_pos: "skipGroup start rest = Ok n \<Longrightarrow> 0 < n"
proof (induction start rest arbitrary: n rule: skipTx_skipGroup.induct(2) [where P = "\<lambda>_. True"])
  case (1 dAtA)
  show ?case by simp
next
  case (2 start rest)
  from "2.prems" obtain innerWire iNdEx rest' where rv: "readVarint 0 0 start rest = Ok (innerWire, iNdEx, rest')"
    by (subst (asm) skipGroup.simps) (auto split: result.splits)
  from readVarint_index_bounds [OF rv] have i: "start < iNdEx" by simp
  show ?case
  proof (cases "unat (innerWire AND 0x7) = 4")
    case True
    with "2.prems" rv i show ?thesis
      by (subst (asm) skipGroup.simps) simp
  next
    case False
    with "2.prems" rv obtain nxt where sk: "skipTx rest = Ok nxt"
      and g: "\<not> wrap64 (int start + nxt) \<le> int start"
      and r: "skipGroup (nat (wrap64 (int start + nxt))) (drop (nat (wrap64 (int start + nxt)) - start) rest) = Ok n"
      by (subst (asm) skipGroup.simps) (auto split: result.splits if_splits)
    from rv refl refl False sk g r show ?thesis
      by (rule "2.IH")
  qed
qed

lemma wrap64_not_zero: "0 < x \<Longrightarrow> x < 2 ^ 64 \<Longrightarrow> wrap64 x \<noteq> 0"
proof
  assume x: "0 < x" "x < 2 ^ 64" and "wrap64 x = 0"
  then have "(word_of_int x :: 64 word) = 0" by (simp add: wrap64_def signed_eq_0_iff)
  then have "2 ^ 64 dvd x" by (simp add: word_of_int_eq_0_iff)
  with x show False by (auto dest: zdvd_imp_le)
qed

lemma skipTx_not_zero:
  assumes "length dAtA < 2 ^ 62"
  shows "skipTx dAtA \<noteq> Ok 0"
proof
  assume z: "skipTx dAtA = Ok 0"
  then have ne: "dAtA \<noteq> []" by (subst (asm) skipTx.simps) (auto split: if_splits)
  with z obtain wire iNdEx rest where rv: "readVarint 0 0 0 dAtA = Ok (wire, iNdEx, rest)"
    by (subst (asm) skipTx.simps) (auto split: result.splits)
  from readVarint_index_bounds [OF rv] have i: "0 < iNdEx" "iNdEx + length rest = length dAtA"
    by simp_all
  have len: "wrap64 (int i' + sint l) \<noteq> 0"
    if "readVarint 0 0 iNdEx rest = Ok (l, i', r)" and "\<not> sint l < 0" for l i' r
  proof -
    from readVarint_index_bounds [OF that(1)] i have "0 < i'" "i' \<le> length dAtA" by simp_all
    with assms have "int i' < 2 ^ 62" by simp
    moreover have "sint l < 2 ^ 63" using sint_lt [of l] by simp
    ultimately have "0 < int i' + sint l" "int i' + sint l < 2 ^ 64"
      using that(2) \<open>0 < i'\<close> by simp_all
    then show ?thesis by (rule wrap64_not_zero)
  qed
  from z ne rv have b: "(let wireType = unat (wire AND 0x7) in
              if wireType = 0 then
                (case skipVarint 0 iNdEx rest of
                   Err e \<Rightarrow> Err e | Panicked \<Rightarrow> Panicked | Ok i \<Rightarrow> Ok (int i))
              else if wireType = 1 then Ok (int iNdEx + 8)
              else if wireType = 2 then
                (case readVarint 0 0 iNdEx rest of
                   Err e \<Rightarrow> Err e
                 | Panicked \<Rightarrow> Panicked
                 | Ok (len, i, rest') \<Rightarrow>
                     if sint len < 0 then Err ErrInvalidLengthTx
                     else Ok (wrap64 (int i + sint len)))
              else if wireType = 3 then skipGroup iNdEx rest
              else if wireType = 4 then Ok (int iNdEx)
              else if wireType = 5 then Ok (int iNdEx + 4)
              else Err ErrIllegalWireType) = Ok 0"
    by (subst (asm) skipTx.simps) simp
  consider (v) "unat (wire AND 0x7) = 0" | (f) "unat (wire AND 0x7) = 1"
    | (l) "unat (wire AND 0x7) = 2" | (g) "unat (wire AND 0x7) = 3"
    | (e) "unat (wire AND 0x7) = 4" | (w) "unat (wire AND 0x7) = 5"
    | (o) "unat (wire AND 0x7) \<notin> {0, 1, 2, 3, 4, 5}" by auto
  then show False
  proof cases
    case v
    with b show ?thesis by (auto split: result.splits dest: skipVarint_index)
  next
    case f
    with b show ?thesis by simp
  next
    case l
    with b show ?thesis by (auto split: result.splits if_splits dest: len)
  next
    case g
    with b show ?thesis by (auto dest: skipGroup_pos)
  next
    case e
    with b i show ?thesis by simp
  next
    case w
    with b show ?thesis by simp
  next
    case o
    with b show ?thesis by auto
  qed
qed

lemma skipGroup_index:
  "skipGroup start rest = Ok n \<Longrightarrow> int start < n \<and> n \<le> int (start + length rest)"
proof (induction start rest arbitrary: n rule: skipTx_skipGroup.induct(2) [where P = "\<lambda>_. True"])
  case (1 dAtA)
  show ?case by simp
next
  case (2 start rest)
  from "2.prems" obtain innerWire iNdEx rest' where rv: "readVarint 0 0 start rest = Ok (innerWire, iNdEx, rest')"
    by (subst (asm) skipGroup.simps) (auto split: result.splits)
  from readVarint_index_bounds [OF rv] have i: "start < iNdEx" "iNdEx + length rest' = start + length rest"
    by simp_all
  show ?case
  proof (cases "unat (innerWire AND 0x7) = 4")
    case True
    with "2.prems" rv have "n = int iNdEx"
      by (subst (asm) skipGroup.simps) simp
    with i show ?thesis by simp
  next
    case False
    with "2.prems" rv obtain nxt where sk: "skipTx rest = Ok nxt"
      and g: "\<not> wrap64 (int start + nxt) \<le> int start"
      and r: "skipGroup (nat (wrap64 (int start + nxt))) (drop (nat (wrap64 (int start + nxt)) - start) rest) = Ok n"
      by (subst (asm) skipGroup.simps) (auto split: result.splits if_splits)
    define s where "s = nat (wrap64 (int start + nxt))"
    from rv refl refl False sk g r
    have "int (nat (wrap64 (int start + nxt))) < n
        \<and> n \<le> int (nat (wrap64 (int start + nxt))
                    + length (drop (nat (wrap64 (int start + nxt)) - start) rest))"
      by (rule "2.IH")
    then have ih: "int s < n" "n \<le> int (s + length (drop (s - start) rest))"
      unfolding s_def by blast+
    from g have gt: "start < s" unfolding s_def by simp
    from r have "drop (s - start) rest \<noteq> []"
      unfolding s_def by (subst (asm) skipGroup.simps) (auto split: result.splits)
    then have "s - start < length rest" by simp
    with gt have "s + length (drop (s - start) rest) = start + length rest" by simp
    with ih gt show ?thesis by linarith
  qed
qed

lemma skipVarint_upper: "skipVarint s i u = Ok i' \<Longrightarrow> i' \<le> i + length u"
  by (induction s i u rule: skipVarint.induct) (auto split: if_splits)

lemma wrap64_small: "- (2 ^ 63) \<le> x \<Longrightarrow> x < 2 ^ 63 \<Longrightarrow> wrap64 x = x"
  by (simp add: wrap64_def signed_of_int signed_take_bit_int_eq_self)

lemma wrap64_wrapped: "2 ^ 63 \<le> x \<Longrightarrow> x < 2 ^ 64 \<Longrightarrow> wrap64 x = x - 2 ^ 64"
proof -
  assume a: "2 ^ 63 \<le> x" "x < 2 ^ 64"
  have "(word_of_int x :: 64 word) = word_of_int (x - 2 ^ 64)"
    by (simp add: word_of_int_eq_iff take_bit_eq_mod)
  then have "wrap64 x = wrap64 (x - 2 ^ 64)" by (simp only: wrap64_def)
  also have "\<dots> = x - 2 ^ 64" using a by (intro wrap64_small) simp_all
  finally show ?thesis .
qed

lemma skipTx_range:
  assumes "length dAtA < 2 ^ 62" and z: "skipTx dAtA = Ok n"
  shows "(0 < n \<and> n < 2 ^ 63) \<or> (- (2 ^ 63) \<le> n \<and> n < - (2 ^ 62))"
proof -
  from z have ne: "dAtA \<noteq> []" by (subst (asm) skipTx.simps) (auto split: if_splits)
  with z obtain wire iNdEx rest where rv: "readVarint 0 0 0 dAtA = Ok (wire, iNdEx, rest)"
    by (subst (asm) skipTx.simps) (auto split: result.splits)
  from readVarint_index_bounds [OF rv] have i: "0 < iNdEx" "iNdEx + length rest = length dAtA"
    by simp_all
  with assms(1) have ib: "int iNdEx < 2 ^ 62" by simp
  have len: "(0 < wrap64 (int i' + sint l) \<and> wrap64 (int i' + sint l) < 2 ^ 63)
               \<or> (- (2 ^ 63) \<le> wrap64 (int i' + sint l) \<and> wrap64 (int i' + sint l) < - (2 ^ 62))"
    if "readVarint 0 0 iNdEx rest = Ok (l, i', r)" and "\<not> sint l < 0" for l i' r
  proof -
    from readVarint_index_bounds [OF that(1)] i have "0 < i'" "i' \<le> length dAtA" by simp_all
    with assms(1) have b: "0 < int i'" "int i' < 2 ^ 62" by simp_all
    have s: "sint l < 2 ^ 63" using sint_lt [of l] by simp
    show ?thesis
    proof (cases "int i' + sint l < 2 ^ 63")
      case True
      with b that(2) have "wrap64 (int i' + sint l) = int i' + sint l"
        by (intro wrap64_small) simp_all
      with b that(2) True show ?thesis by simp
    next
      case False
      with b s have "wrap64 (int i' + sint l) = int i' + sint l - 2 ^ 64"
        by (intro wrap64_wrapped) simp_all
      with b s False show ?thesis by simp
    qed
  qed
  from z ne rv have b: "(let wireType = unat (wire AND 0x7) in
              if wireType = 0 then
                (case skipVarint 0 iNdEx rest of
                   Err e \<Rightarrow> Err e | Panicked \<Rightarrow> Panicked | Ok i \<Rightarrow> Ok (int i))
              else if wireType = 1 then Ok (int iNdEx + 8)
              else if wireType = 2 then
                (case readVarint 0 0 iNdEx rest of
                   Err e \<Rightarrow> Err e
                 | Panicked \<Rightarrow> Panicked
                 | Ok (len, i, rest') \<Rightarrow>
                     if sint len < 0 then Err ErrInvalidLengthTx
                     else Ok (wrap64 (int i + sint len)))
              else if wireType = 3 then skipGroup iNdEx rest
              else if wireType = 4 then Ok (int iNdEx)
              else if wireType = 5 then Ok (int iNdEx + 4)
              else Err ErrIllegalWireType) = Ok n"
    by (subst (asm) skipTx.simps) simp
  consider (v) "unat (wire AND 0x7) = 0" | (f) "unat (wire AND 0x7) = 1"
    | (l) "unat (wire AND 0x7) = 2" | (g) "unat (wire AND 0x7) = 3"
    | (e) "unat (wire AND 0x7) = 4" | (w) "unat (wire AND 0x7) = 5"
    | (o) "unat (wire AND 0x7) \<notin> {0, 1, 2, 3, 4, 5}" by auto
  then show ?thesis
  proof cases
    case v
    with b obtain j where j: "skipVarint 0 iNdEx rest = Ok j" "n = int j"
      by (auto split: result.splits)
    from skipVarint_index [OF j(1)] skipVarint_upper [OF j(1)] j(2) i assms(1)
    show ?thesis by simp
  next
    case f
    with b ib i show ?thesis by auto
  next
    case l
    with b show ?thesis by (auto split: result.splits if_splits dest: len)
  next
    case g
    with b have "skipGroup iNdEx rest = Ok n" by simp
    from skipGroup_index [OF this] i assms(1) show ?thesis by simp
  next
    case e
    with b i ib show ?thesis by auto
  next
    case w
    with b ib i show ?thesis by auto
  next
    case o
    with b show ?thesis by auto
  qed
qed

lemma skipGroup_guard:
  assumes b: "start + length rest < 2 ^ 62" and z: "skipTx rest = Ok nxt"
  shows "wrap64 (int start + nxt) \<le> int start \<longleftrightarrow> wrap64 (int start + nxt) < 0"
proof -
  from b have l: "length rest < 2 ^ 62" and s: "int start < 2 ^ 62" by simp_all
  from skipTx_range [OF l z]
  consider (pos) "0 < nxt" "nxt < 2 ^ 63" | (neg) "- (2 ^ 63) \<le> nxt" "nxt < - (2 ^ 62)"
    by blast
  then show ?thesis
  proof cases
    case pos
    show ?thesis
    proof (cases "int start + nxt < 2 ^ 63")
      case True
      with pos have "wrap64 (int start + nxt) = int start + nxt"
        by (intro wrap64_small) simp_all
      with pos show ?thesis by simp
    next
      case False
      with pos s have "wrap64 (int start + nxt) = int start + nxt - 2 ^ 64"
        by (intro wrap64_wrapped) simp_all
      with pos s show ?thesis by simp
    qed
  next
    case neg
    with s have "wrap64 (int start + nxt) = int start + nxt"
      by (intro wrap64_small) simp_all
    with neg s show ?thesis by simp
  qed
qed

end
